theory Spec2Isabelle
  imports Main "HOL-Library.Word" "HOL-Library.AList"
begin

section \<open>Bytes, text and the encodings of the runtime\<close>

text \<open>
  A \<open>Buffer\<close> is a list of 8-bit words. Text of the approval workflow and of the audit
  log is an Isabelle \<open>string\<close>, read as the UTF-8 bytes of a well-formed JavaScript
  string, so that \<open>Buffer.from(text)\<close> is the byte list of the same characters. The
  vault, whose claims quantify over every JavaScript string, uses lists of 16-bit code
  units instead (see below).
\<close>

type_synonym byte = "8 word"

definition utf8_bytes :: "string \<Rightarrow> byte list" where
  "utf8_bytes s = map (\<lambda>c. of_nat (of_char c)) s"

text \<open>\<open>crypto.randomBytes(n)\<close>: the first \<open>n\<close> bytes of an entropy source.\<close>

definition randomBytes :: "nat \<Rightarrow> (nat \<Rightarrow> byte) \<Rightarrow> byte list" where
  "randomBytes n entropy = map entropy [0..<n]"

text \<open>\<open>buf.toString('hex')\<close>: two lower-case hexadecimal digits per byte.\<close>

definition hex_digit :: "nat \<Rightarrow> char" where
  "hex_digit n = (if n < 10 then char_of (48 + n) else char_of (87 + n))"

definition hex_byte :: "byte \<Rightarrow> string" where
  "hex_byte b = [hex_digit (unat b div 16), hex_digit (unat b mod 16)]"

definition hex_encode :: "byte list \<Rightarrow> string" where
  "hex_encode bs = concat (map hex_byte bs)"

text \<open>
  \<open>buf.toString('base64url')\<close>: the URL-safe alphabet \<open>A-Z a-z 0-9 - _\<close>, six bits per
  character, no padding.
\<close>

definition b64url_digit :: "nat \<Rightarrow> char" where
  "b64url_digit n =
     (if n < 26 then char_of (65 + n)
      else if n < 52 then char_of (71 + n)
      else if n < 62 then char_of (n - 4)
      else if n = 62 then CHR ''-'' else CHR ''_'')"

fun base64url :: "byte list \<Rightarrow> string" where
  "base64url [] = []"
| "base64url [a] =
     [b64url_digit (unat a div 4), b64url_digit (unat a mod 4 * 16)]"
| "base64url [a, b] =
     [b64url_digit (unat a div 4), b64url_digit (unat a mod 4 * 16 + unat b div 16),
      b64url_digit (unat b mod 16 * 4)]"
| "base64url (a # b # c # rest) =
     [b64url_digit (unat a div 4), b64url_digit (unat a mod 4 * 16 + unat b div 16),
      b64url_digit (unat b mod 16 * 4 + unat c div 64), b64url_digit (unat c mod 64)]
     @ base64url rest"

subsection \<open>JSON.stringify\<close>

text \<open>
  The values the sources serialise: strings, integral numbers and objects (own
  properties in insertion order). \<open>JSON.stringify\<close> quotes a string, escaping the
  quotation mark, the backslash and the control characters below U+0020 (the short
  forms \<open>\b \t \n \f \r\<close>, otherwise \<open>\u00XX\<close>), prints an integer in decimal, and
  joins an object's members with commas, without white space.
\<close>

datatype json = JString string | JNumber int | JObject "(string \<times> json) list"

definition json_escape :: "char \<Rightarrow> string" where
  "json_escape c =
     (let n = (of_char c :: nat) in
      if n = 0x22 then [CHR 0x5C, CHR 0x22]
      else if n = 0x5C then [CHR 0x5C, CHR 0x5C]
      else if n = 0x08 then [CHR 0x5C, CHR ''b'']
      else if n = 0x09 then [CHR 0x5C, CHR ''t'']
      else if n = 0x0A then [CHR 0x5C, CHR ''n'']
      else if n = 0x0C then [CHR 0x5C, CHR ''f'']
      else if n = 0x0D then [CHR 0x5C, CHR ''r'']
      else if n < 0x20 then [CHR 0x5C, CHR ''u'', CHR ''0'', CHR ''0'',
                             hex_digit (n div 16), hex_digit (n mod 16)]
      else [c])"

definition JSON_quote :: "string \<Rightarrow> string" where
  "JSON_quote s = [CHR 0x22] @ concat (map json_escape s) @ [CHR 0x22]"

fun decimal :: "nat \<Rightarrow> string" where
  "decimal n =
     (if n < 10 then [char_of (48 + n)]
      else decimal (n div 10) @ [char_of (48 + n mod 10)])"

declare decimal.simps [simp del]

definition JSON_number :: "int \<Rightarrow> string" where
  "JSON_number i = (if i < 0 then CHR ''-'' # decimal (nat (- i)) else decimal (nat i))"

fun join_with :: "string \<Rightarrow> string list \<Rightarrow> string" where
  "join_with sep [] = []"
| "join_with sep [x] = x"
| "join_with sep (x # y # ys) = x @ sep @ join_with sep (y # ys)"

fun JSON_stringify :: "json \<Rightarrow> string"
  and JSON_members :: "(string \<times> json) list \<Rightarrow> string list" where
  "JSON_stringify (JString s) = JSON_quote s"
| "JSON_stringify (JNumber i) = JSON_number i"
| "JSON_stringify (JObject kvs) = ''{'' @ join_with '','' (JSON_members kvs) @ ''}''"
| "JSON_members [] = []"
| "JSON_members (kv # kvs) =
     (JSON_quote (fst kv) @ '':'' @ JSON_stringify (snd kv)) # JSON_members kvs"

section \<open>Approval workflow (approvalWorkflow.js)\<close>

datatype status = PENDING | APPROVED | EXPIRED

fun status_text :: "status \<Rightarrow> string" where
  "status_text PENDING = ''PENDING''"
| "status_text APPROVED = ''APPROVED''"
| "status_text EXPIRED = ''EXPIRED''"

record approval =
  approverId :: string
  timestamp :: int

record request =
  id_req :: string
  requesterId :: string
  action :: string
  details :: string
  status :: status
  requiredApprovals :: int
  potentialApprovers :: "string list"
  approvals :: "approval list"
  createdAt :: int
  expiresAt :: int

text \<open>
  \<open>pendingRequests\<close> is a \<open>Map\<close>: an association list in insertion order, where
  \<open>set\<close> replaces the value of a present key in place and appends a new key
  (\<open>AList.update\<close>), \<open>get\<close> is \<open>map_of\<close> and \<open>delete\<close> is \<open>AList.delete\<close>. The
  map holds the request objects themselves, so an assignment to a field of a looked-up
  request is an update of the map entry.
\<close>

type_synonym pendingRequests = "(string \<times> request) list"

text \<open>
  \<open>TOKEN_SECRET = process.env.APPROVAL_TOKEN_SECRET || '...'\<close>, evaluated once when the
  module is loaded: the environment is a map from names to strings, and \<open>||\<close> takes the
  right operand when the left one is undefined or the empty string.
\<close>

definition TOKEN_SECRET :: "(string \<rightharpoonup> string) \<Rightarrow> string" where
  "TOKEN_SECRET env =
     (case env ''APPROVAL_TOKEN_SECRET'' of
        None \<Rightarrow> ''default-super-secret-key-for-dev-only''
      | Some s \<Rightarrow> if s = [] then ''default-super-secret-key-for-dev-only'' else s)"

text \<open>
  The \<open>options\<close> object of \<open>createRequest\<close>. A property that may be left undefined is
  an \<open>option\<close>; the destructuring defaults (2 approvals, 3600 seconds) apply to \<open>None\<close>.
\<close>

record options =
  opt_requesterId :: string
  opt_action :: string
  opt_details :: string
  opt_requiredApprovals :: "int option"
  opt_potentialApprovers :: "string list option"
  opt_ttl :: "int option"

datatype create_result = CreateOk string | CreateFailed string

text \<open>
  Every call of \<open>Date.now()\<close> is an argument of its own (\<open>now1\<close>, \<open>now2\<close>, in the order
  the source reads the clock), in epoch milliseconds. \<open>entropy\<close> feeds
  \<open>randomBytes(16)\<close>.
\<close>

definition createRequest ::
  "(nat \<Rightarrow> byte) \<Rightarrow> int \<Rightarrow> int \<Rightarrow> options \<Rightarrow> pendingRequests
     \<Rightarrow> pendingRequests \<times> create_result" where
  "createRequest entropy now1 now2 opts reqs =
     (let requiredApprovals' = (case opt_requiredApprovals opts of None \<Rightarrow> 2 | Some m \<Rightarrow> m);
          ttl = (case opt_ttl opts of None \<Rightarrow> 3600 | Some t \<Rightarrow> t)
      in
      if opt_requesterId opts = [] \<or> opt_action opts = [] \<or>
         (case opt_potentialApprovers opts of
            None \<Rightarrow> True
          | Some ps \<Rightarrow> int (length ps) < requiredApprovals')
      then (reqs, CreateFailed
        ''Invalid request parameters. Ensure requester, action, and a valid set of approvers are provided.'')
      else
        let requestId = hex_encode (randomBytes 16 entropy);
            expiresAt' = now1 + ttl * 1000;
            request = \<lparr> id_req = requestId,
                        requesterId = opt_requesterId opts,
                        action = opt_action opts,
                        details = opt_details opts,
                        status = PENDING,
                        requiredApprovals = requiredApprovals',
                        potentialApprovers = the (opt_potentialApprovers opts),
                        approvals = [],
                        createdAt = now2,
                        expiresAt = expiresAt' \<rparr>
        in (AList.update requestId request reqs, CreateOk requestId))"

definition listPendingApprovals :: "int \<Rightarrow> pendingRequests \<Rightarrow> request list" where
  "listPendingApprovals now reqs =
     filter (\<lambda>req. status req = PENDING \<and> expiresAt req > now) (map snd reqs)"

datatype apply_result = ApplyOk status | ApplyFailed string

definition applyApproval ::
  "int \<Rightarrow> int \<Rightarrow> string \<Rightarrow> string \<Rightarrow> pendingRequests
     \<Rightarrow> pendingRequests \<times> apply_result" where
  "applyApproval now1 now2 requestId approverId' reqs =
     (case map_of reqs requestId of
        None \<Rightarrow> (reqs, ApplyFailed ''Request not found.'')
      | Some request \<Rightarrow>
          if expiresAt request \<le> now1
          then (AList.update requestId (request\<lparr>status := EXPIRED\<rparr>) reqs,
                ApplyFailed ''Request has expired.'')
          else if status request \<noteq> PENDING
          then (reqs, ApplyFailed (''Request is no longer pending (status: ''
                  @ status_text (status request) @ '').''))
          else if approverId' \<notin> set (potentialApprovers request)
          then (reqs, ApplyFailed ''User is not authorized to approve this request.'')
          else if approverId' \<in> set (map approverId (approvals request))
          then (reqs, ApplyFailed ''User has already approved this request.'')
          else
            let voted = request\<lparr>approvals := approvals request
                          @ [\<lparr>approverId = approverId', timestamp = now2\<rparr>]\<rparr>;
                decided =
                  (if int (length (approvals voted)) \<ge> requiredApprovals voted
                   then voted\<lparr>status := APPROVED\<rparr> else voted)
            in (AList.update requestId decided reqs, ApplyOk (status decided)))"

datatype check_status = NOT_FOUND | Status status

record check_result =
  res_status :: check_status
  res_token :: "string option"
  res_error :: "string option"

text \<open>
  The token of \<open>checkApprovalStatus\<close>. \<open>hmac\<close> is \<open>createHmac('sha256', key)\<close> with
  \<open>update\<close> and \<open>digest\<close>, a function of the key bytes and the message bytes.
\<close>

definition token_payload :: "request \<Rightarrow> string \<Rightarrow> int \<Rightarrow> string" where
  "token_payload request requestId now =
     JSON_stringify (JObject
       [(''sub'', JString (requesterId request)),
        (''req'', JString requestId),
        (''act'', JString (action request)),
        (''exp'', JNumber (now + 300 * 1000))])"

definition sign_token ::
  "(byte list \<Rightarrow> byte list \<Rightarrow> byte list) \<Rightarrow> string \<Rightarrow> string \<Rightarrow> string" where
  "sign_token hmac secret payload =
     (let signature = hex_encode (hmac (utf8_bytes secret) (utf8_bytes payload))
      in base64url (utf8_bytes payload) @ ''.'' @ signature)"

definition checkApprovalStatus ::
  "(byte list \<Rightarrow> byte list \<Rightarrow> byte list) \<Rightarrow> string \<Rightarrow> int \<Rightarrow> int \<Rightarrow> string
     \<Rightarrow> pendingRequests \<Rightarrow> pendingRequests \<times> check_result" where
  "checkApprovalStatus hmac secret now1 now2 requestId reqs =
     (case map_of reqs requestId of
        None \<Rightarrow> (reqs, \<lparr>res_status = NOT_FOUND, res_token = None,
                          res_error = Some ''Request not found.''\<rparr>)
      | Some request0 \<Rightarrow>
          let lapsed = (expiresAt request0 \<le> now1 \<and> status request0 = PENDING);
              request = (if lapsed then request0\<lparr>status := EXPIRED\<rparr> else request0);
              reqs' = (if lapsed then AList.update requestId request reqs else reqs)
          in
          if status request = APPROVED
          then (AList.delete requestId reqs',
                \<lparr>res_status = Status APPROVED,
                 res_token = Some (sign_token hmac secret (token_payload request requestId now2)),
                 res_error = None\<rparr>)
          else (reqs', \<lparr>res_status = Status (status request), res_token = None,
                        res_error = None\<rparr>))"

text \<open>
  A caller's history is a list of calls of the four exported functions, each with the
  clock values it reads; \<open>step\<close> keeps the store a call leaves behind.
\<close>

datatype call =
    Create "nat \<Rightarrow> byte" int int options
  | ListPending int
  | Apply int int string string
  | Check int int string

fun step ::
  "(byte list \<Rightarrow> byte list \<Rightarrow> byte list) \<Rightarrow> string \<Rightarrow> pendingRequests \<Rightarrow> call
     \<Rightarrow> pendingRequests" where
  "step hmac secret reqs (Create entropy now1 now2 opts) =
     fst (createRequest entropy now1 now2 opts reqs)"
| "step hmac secret reqs (ListPending now) = reqs"
| "step hmac secret reqs (Apply now1 now2 requestId approver) =
     fst (applyApproval now1 now2 requestId approver reqs)"
| "step hmac secret reqs (Check now1 now2 requestId) =
     fst (checkApprovalStatus hmac secret now1 now2 requestId reqs)"

definition run ::
  "(byte list \<Rightarrow> byte list \<Rightarrow> byte list) \<Rightarrow> string \<Rightarrow> pendingRequests \<Rightarrow> call list
     \<Rightarrow> pendingRequests" where
  "run hmac secret reqs calls = foldl (step hmac secret) reqs calls"

text \<open>The request id a call of \<open>createRequest\<close> draws from its entropy.\<close>

fun drawn_id :: "call \<Rightarrow> string option" where
  "drawn_id (Create entropy now1 now2 opts) = Some (hex_encode (randomBytes 16 entropy))"
| "drawn_id c = None"

section \<open>The vault (vault.js)\<close>

subsection \<open>JavaScript strings and UTF-8\<close>

text \<open>
  The vault's keys, values and passwords are JavaScript strings: lists of 16-bit code
  units, whose \<open>length\<close> counts code units. \<open>cipher.update(value, 'utf8')\<close> encodes one
  as UTF-8: a high surrogate followed by a low surrogate is one code point of four
  bytes, any other surrogate is written as U+FFFD (\<open>EF BF BD\<close>). \<open>buf.toString('utf8')\<close>
  decodes UTF-8, and writes U+FFFD for every maximal ill-formed part of its input.
\<close>

type_synonym jsstring = "16 word list"

definition js :: "string \<Rightarrow> jsstring" where
  "js s = map (\<lambda>c. of_nat (of_char c)) s"

definition replacement :: "byte list" where
  "replacement = [0xEF, 0xBF, 0xBD]"

definition is_high :: "nat \<Rightarrow> bool" where
  "is_high n = (0xD800 \<le> n \<and> n < 0xDC00)"

definition is_low :: "nat \<Rightarrow> bool" where
  "is_low n = (0xDC00 \<le> n \<and> n < 0xE000)"

definition utf8_1 :: "nat \<Rightarrow> byte list" where
  "utf8_1 n = [of_nat n]"

definition utf8_2 :: "nat \<Rightarrow> byte list" where
  "utf8_2 n = [of_nat (0xC0 + n div 64), of_nat (0x80 + n mod 64)]"

definition utf8_3 :: "nat \<Rightarrow> byte list" where
  "utf8_3 n = [of_nat (0xE0 + n div 4096), of_nat (0x80 + n div 64 mod 64), of_nat (0x80 + n mod 64)]"

definition utf8_4 :: "nat \<Rightarrow> byte list" where
  "utf8_4 n = [of_nat (0xF0 + n div 262144), of_nat (0x80 + n div 4096 mod 64),
               of_nat (0x80 + n div 64 mod 64), of_nat (0x80 + n mod 64)]"

definition pair_code_point :: "nat \<Rightarrow> nat \<Rightarrow> nat" where
  "pair_code_point h l = 0x10000 + (h - 0xD800) * 0x400 + (l - 0xDC00)"

fun utf8_encode :: "jsstring \<Rightarrow> byte list" where
  "utf8_encode [] = []"
| "utf8_encode [u] =
     (let n = unat u in
      if n < 0x80 then utf8_1 n
      else if n < 0x800 then utf8_2 n
      else if is_high n \<or> is_low n then replacement
      else utf8_3 n)"
| "utf8_encode (u # l # rest) =
     (let n = unat u in
      if n < 0x80 then utf8_1 n @ utf8_encode (l # rest)
      else if n < 0x800 then utf8_2 n @ utf8_encode (l # rest)
      else if is_high n \<and> is_low (unat l)
        then utf8_4 (pair_code_point n (unat l)) @ utf8_encode rest
      else if is_high n \<or> is_low n then replacement @ utf8_encode (l # rest)
      else utf8_3 n @ utf8_encode (l # rest))"

definition is_cont :: "nat \<Rightarrow> nat \<Rightarrow> byte \<Rightarrow> bool" where
  "is_cont lower upper b = (lower \<le> unat b \<and> unat b \<le> upper)"

definition cont_bits :: "byte \<Rightarrow> nat" where
  "cont_bits b = unat b - 0x80"

definition from_code_point :: "nat \<Rightarrow> jsstring" where
  "from_code_point cp =
     (if cp < 0x10000 then [of_nat cp]
      else [of_nat (0xD800 + (cp - 0x10000) div 0x400), of_nat (0xDC00 + (cp - 0x10000) mod 0x400)])"

fun utf8_decode :: "byte list \<Rightarrow> jsstring" where
  "utf8_decode [] = []"
| "utf8_decode (b # bs) =
     (let n = unat b in
      if n < 0x80 then of_nat n # utf8_decode bs
      else if 0xC2 \<le> n \<and> n \<le> 0xDF then
        (case bs of
           c1 # r1 \<Rightarrow>
             if is_cont 0x80 0xBF c1
             then from_code_point ((n - 0xC0) * 64 + cont_bits c1) @ utf8_decode r1
             else 0xFFFD # utf8_decode bs
         | [] \<Rightarrow> [0xFFFD])
      else if 0xE0 \<le> n \<and> n \<le> 0xEF then
        (case bs of
           c1 # r1 \<Rightarrow>
             if is_cont (if n = 0xE0 then 0xA0 else 0x80) (if n = 0xED then 0x9F else 0xBF) c1
             then (case r1 of
                     c2 # r2 \<Rightarrow>
                       if is_cont 0x80 0xBF c2
                       then from_code_point ((n - 0xE0) * 4096 + cont_bits c1 * 64 + cont_bits c2)
                            @ utf8_decode r2
                       else 0xFFFD # utf8_decode r1
                   | [] \<Rightarrow> [0xFFFD])
             else 0xFFFD # utf8_decode bs
         | [] \<Rightarrow> [0xFFFD])
      else if 0xF0 \<le> n \<and> n \<le> 0xF4 then
        (case bs of
           c1 # r1 \<Rightarrow>
             if is_cont (if n = 0xF0 then 0x90 else 0x80) (if n = 0xF4 then 0x8F else 0xBF) c1
             then (case r1 of
                     c2 # r2 \<Rightarrow>
                       if is_cont 0x80 0xBF c2
                       then (case r2 of
                               c3 # r3 \<Rightarrow>
                                 if is_cont 0x80 0xBF c3
                                 then from_code_point ((n - 0xF0) * 262144 + cont_bits c1 * 4096
                                        + cont_bits c2 * 64 + cont_bits c3) @ utf8_decode r3
                                 else 0xFFFD # utf8_decode r2
                             | [] \<Rightarrow> [0xFFFD])
                       else 0xFFFD # utf8_decode r1
                   | [] \<Rightarrow> [0xFFFD])
             else 0xFFFD # utf8_decode bs
         | [] \<Rightarrow> [0xFFFD])
      else 0xFFFD # utf8_decode bs)"


declare utf8_decode.simps [simp del]
declare utf8_encode.simps [simp del]

text \<open>A string is well formed when every surrogate code unit is half of a pair.\<close>

fun well_formed :: "jsstring \<Rightarrow> bool" where
  "well_formed [] = True"
| "well_formed [u] = (\<not> is_high (unat u) \<and> \<not> is_low (unat u))"
| "well_formed (u # l # rest) =
     (if is_high (unat u) then is_low (unat l) \<and> well_formed rest
      else \<not> is_low (unat u) \<and> well_formed (l # rest))"

subsection \<open>The Vault class\<close>

text \<open>
  \<open>Buffer.from(text, 'hex')\<close> reads two hexadecimal digits per byte and stops at the
  first character that is not one; \<open>buf.slice(a, b)\<close> is the part from index \<open>a\<close> up to \<open>b\<close>.
\<close>

definition hex_value :: "char \<Rightarrow> nat option" where
  "hex_value c =
     (let n = (of_char c :: nat) in
      if 48 \<le> n \<and> n \<le> 57 then Some (n - 48)
      else if 97 \<le> n \<and> n \<le> 102 then Some (n - 87)
      else if 65 \<le> n \<and> n \<le> 70 then Some (n - 55)
      else None)"

fun hex_decode :: "string \<Rightarrow> byte list" where
  "hex_decode (c1 # c2 # cs) =
     (case hex_value c1 of
        None \<Rightarrow> []
      | Some h \<Rightarrow>
          (case hex_value c2 of
             None \<Rightarrow> []
           | Some l \<Rightarrow> of_nat (16 * h + l) # hex_decode cs))"
| "hex_decode cs = []"

definition slice :: "nat \<Rightarrow> nat \<Rightarrow> 'a list \<Rightarrow> 'a list" where
  "slice a b xs = take (b - a) (drop a xs)"

definition KEY_LENGTH :: nat where "KEY_LENGTH = 32"
definition SALT_LENGTH :: nat where "SALT_LENGTH = 16"
definition IV_LENGTH :: nat where "IV_LENGTH = 12"
definition AUTH_TAG_LENGTH :: nat where "AUTH_TAG_LENGTH = 16"

text \<open>A thrown value, with its message.\<close>

datatype js_error = JsError string

text \<open>
  The functions of \<open>crypto\<close> that the vault calls are parameters: \<open>scrypt\<close> with the
  password, the salt and the key length (its cost parameters are checked apart, below,
  and \<open>scrypt_refusal\<close> is the error the library throws for parameters it refuses), and
  AES-256-GCM as one function from key, IV and plaintext to ciphertext and
  authentication tag (\<open>createCipheriv\<close>, \<open>update\<close>, \<open>final\<close>, \<open>getAuthTag\<close>) and one back
  (\<open>createDecipheriv\<close>, \<open>setAuthTag\<close>, \<open>update\<close>, \<open>final\<close>). Each may throw.
\<close>

record node_crypto =
  scrypt :: "jsstring \<Rightarrow> byte list \<Rightarrow> nat \<Rightarrow> js_error + byte list"
  scrypt_refusal :: js_error
  gcm_encrypt :: "byte list \<Rightarrow> byte list \<Rightarrow> byte list \<Rightarrow> js_error + byte list \<times> byte list"
  gcm_decrypt :: "byte list \<Rightarrow> byte list \<Rightarrow> byte list \<Rightarrow> byte list \<Rightarrow> js_error + byte list"

text \<open>The private fields \<open>#derivedKey\<close>, \<open>#salt\<close>, \<open>#store\<close> and \<open>#initialized\<close>.\<close>

record vault =
  p_derivedKey :: "byte list option"
  p_salt :: "byte list option"
  p_store :: "jsstring \<rightharpoonup> string"
  p_initialized :: bool

definition new_Vault :: vault where
  "new_Vault = \<lparr>p_derivedKey = None, p_salt = None, p_store = Map.empty, p_initialized = False\<rparr>"

record vault_result =
  success :: bool
  data :: "jsstring option"
  error :: "string option"

text \<open>
  \<open>SCRYPT_PARAMS\<close>, the options of the key derivation. They name no \<open>maxmem\<close>, so the
  library's default of 32 MiB is the memory bound. The library refuses, before deriving
  anything, parameters whose working memory (\<open>128 * r * p\<close> bytes for the blocks and
  \<open>128 * r * (N + 2)\<close> bytes for the table) is above the bound; \<open>scryptAsync\<close> is the
  promisified call with these options, and its refusal is a rejected promise.
\<close>

definition SCRYPT_N :: nat where "SCRYPT_N = 32768"
definition SCRYPT_r :: nat where "SCRYPT_r = 8"
definition SCRYPT_p :: nat where "SCRYPT_p = 1"

definition defaultMaxmem :: nat where
  "defaultMaxmem = 32 * 1024 * 1024"

definition scrypt_memory :: "nat \<Rightarrow> nat \<Rightarrow> nat \<Rightarrow> nat" where
  "scrypt_memory N r p = 128 * r * p + 128 * r * (N + 2)"

definition scryptAsync ::
  "node_crypto \<Rightarrow> jsstring \<Rightarrow> byte list \<Rightarrow> nat \<Rightarrow> nat \<Rightarrow> nat \<Rightarrow> nat \<Rightarrow>
   js_error + byte list" where
  "scryptAsync lib password salt keylen N r p =
     (if defaultMaxmem < scrypt_memory N r p
      then Inl (scrypt_refusal lib)
      else scrypt lib password salt keylen)"

text \<open>
  \<open>init\<close> is asynchronous and has no result value: it resolves (\<open>Inr ()\<close>) or rejects
  with the thrown error (\<open>Inl\<close>). The salt is assigned before the key derivation is
  awaited; the key and the flag are assigned only when the derivation resolves.
\<close>

definition init ::
  "node_crypto \<Rightarrow> (nat \<Rightarrow> byte) \<Rightarrow> jsstring \<Rightarrow> vault \<Rightarrow> vault \<times> (js_error + unit)" where
  "init lib entropy masterPassword v =
     (if p_initialized v then (v, Inl (JsError ''Vault has already been initialized.''))
      else if length masterPassword < 12
      then (v, Inl (JsError ''Master password must be a string of at least 12 characters.''))
      else
        let salted = v\<lparr>p_salt := Some (randomBytes SALT_LENGTH entropy)\<rparr> in
        case scryptAsync lib masterPassword (randomBytes SALT_LENGTH entropy) KEY_LENGTH
               SCRYPT_N SCRYPT_r SCRYPT_p of
          Inl e \<Rightarrow> (salted, Inl e)
        | Inr key \<Rightarrow> (salted\<lparr>p_derivedKey := Some key, p_initialized := True\<rparr>, Inr ()))"

text \<open>
  The \<open>try\<close> block of \<open>store\<close> up to the payload it would store; a null key or salt makes
  the library throw a TypeError.
\<close>

definition encrypt_payload ::
  "node_crypto \<Rightarrow> byte list \<Rightarrow> jsstring \<Rightarrow> vault \<Rightarrow> js_error + string" where
  "encrypt_payload lib iv val v =
     (case p_derivedKey v of
        None \<Rightarrow> Inl (JsError ''TypeError'')
      | Some key \<Rightarrow>
          (case gcm_encrypt lib key iv (utf8_encode val) of
             Inl e \<Rightarrow> Inl e
           | Inr (encryptedValue, authTag) \<Rightarrow>
               (case p_salt v of
                  None \<Rightarrow> Inl (JsError ''TypeError'')
                | Some s \<Rightarrow> Inr (hex_encode (s @ iv @ authTag @ encryptedValue)))))"

definition store ::
  "node_crypto \<Rightarrow> (nat \<Rightarrow> byte) \<Rightarrow> jsstring \<Rightarrow> jsstring \<Rightarrow> vault \<Rightarrow> vault \<times> vault_result" where
  "store lib entropy key val v =
     (if \<not> p_initialized v
      then (v, \<lparr>success = False, data = None, error = Some ''Vault not initialized.''\<rparr>)
      else
        case encrypt_payload lib (randomBytes IV_LENGTH entropy) val v of
          Inr storedPayload \<Rightarrow>
            (v\<lparr>p_store := (p_store v)(key \<mapsto> storedPayload)\<rparr>,
             \<lparr>success = True, data = None, error = None\<rparr>)
        | Inl e \<Rightarrow>
            (v, \<lparr>success = False, data = None,
                 error = Some ''Failed to encrypt and store value.''\<rparr>))"

text \<open>The \<open>try\<close> block of \<open>retrieve\<close>.\<close>

definition decrypt_payload :: "node_crypto \<Rightarrow> string \<Rightarrow> vault \<Rightarrow> js_error + jsstring" where
  "decrypt_payload lib stored v =
     (let payload = hex_decode stored;
          iv = slice SALT_LENGTH (SALT_LENGTH + IV_LENGTH) payload;
          authTag = slice (SALT_LENGTH + IV_LENGTH) (SALT_LENGTH + IV_LENGTH + AUTH_TAG_LENGTH) payload;
          encryptedValue = drop (SALT_LENGTH + IV_LENGTH + AUTH_TAG_LENGTH) payload
      in
      case p_derivedKey v of
        None \<Rightarrow> Inl (JsError ''TypeError'')
      | Some key \<Rightarrow>
          (case gcm_decrypt lib key iv authTag encryptedValue of
             Inl e \<Rightarrow> Inl e
           | Inr decrypted \<Rightarrow> Inr (utf8_decode decrypted)))"

definition retrieve :: "node_crypto \<Rightarrow> jsstring \<Rightarrow> vault \<Rightarrow> vault \<times> vault_result" where
  "retrieve lib key v =
     (if \<not> p_initialized v
      then (v, \<lparr>success = False, data = None, error = Some ''Vault not initialized.''\<rparr>)
      else
        case p_store v key of
          None \<Rightarrow> (v, \<lparr>success = False, data = None, error = Some ''Key not found in vault.''\<rparr>)
        | Some stored \<Rightarrow>
            (case decrypt_payload lib stored v of
               Inr decryptedValue \<Rightarrow>
                 (v, \<lparr>success = True, data = Some decryptedValue, error = None\<rparr>)
             | Inl e \<Rightarrow>
                 (v, \<lparr>success = False, data = None,
                      error = Some ''Decryption failed. The data may be corrupt or the key is incorrect.''\<rparr>)))"




section \<open>The audit log (auditLogger.js)\<close>

text \<open>
  A log record is a JavaScript object whose properties are strings: an association
  list in property order. Assigning \<open>undefined\<close> to a property leaves it out of what
  \<open>JSON.stringify\<close> prints, so it is modelled as the property's absence.
\<close>

type_synonym jsobject = "(string \<times> string) list"

definition to_json :: "jsobject \<Rightarrow> json" where
  "to_json obj = JObject (map (\<lambda>kv. (fst kv, JString (snd kv))) obj)"

definition serialize :: "jsobject \<Rightarrow> string" where
  "serialize obj = JSON_stringify (to_json obj)"

definition set_prop :: "string \<Rightarrow> string option \<Rightarrow> jsobject \<Rightarrow> jsobject" where
  "set_prop k v obj = (case v of None \<Rightarrow> AList.delete k obj | Some s \<Rightarrow> AList.update k s obj)"

text \<open>
  The log file \<open>audit.log\<close>: its bytes, or \<open>None\<close> when there is no such file (\<open>ENOENT\<close>),
  and whether opening it for reading and appending to it succeed; a failure there is
  an error other than \<open>ENOENT\<close>.
\<close>

record file_system =
  content :: "string option"
  readable :: bool
  writable :: bool

definition GENESIS_HASH :: string where
  "GENESIS_HASH = replicate 64 CHR ''0''"

text \<open>
  \<open>sha256\<close>, the digest of \<open>createHash('sha256')\<close>, and \<open>JSON_parse\<close> are parameters of
  the functions below. \<open>JSON_parse\<close> returns \<open>None\<close> where \<open>JSON.parse\<close> throws; the
  lines of the log are taken to hold objects with string properties, if they hold JSON
  at all.
\<close>

definition createChecksum :: "(byte list \<Rightarrow> byte list) \<Rightarrow> string \<Rightarrow> string" where
  "createChecksum sha256 d = hex_encode (sha256 (utf8_bytes d))"

text \<open>
  \<open>String.prototype.trim\<close> removes white space and line terminators from both ends.
  The file's text is bytes here, so each of these characters is its UTF-8 sequence: one
  byte for U+0009 to U+000D and U+0020, two for U+00A0, three for U+1680, U+2000 to
  U+200A, U+2028, U+2029, U+202F, U+205F, U+3000 and U+FEFF. \<open>white_space_start\<close> is the
  number of bytes of such a character at the head of a text (0 if there is none),
  \<open>white_space_end\<close> the same at the head of a reversed text.
\<close>

definition is_space1 :: "nat \<Rightarrow> bool" where
  "is_space1 a = ((0x09 \<le> a \<and> a \<le> 0x0D) \<or> a = 0x20)"

definition is_space2 :: "nat \<Rightarrow> nat \<Rightarrow> bool" where
  "is_space2 a b = (a = 0xC2 \<and> b = 0xA0)"

definition is_space3 :: "nat \<Rightarrow> nat \<Rightarrow> nat \<Rightarrow> bool" where
  "is_space3 a b c =
     ((a = 0xE1 \<and> b = 0x9A \<and> c = 0x80) \<or>
      (a = 0xE2 \<and> b = 0x80 \<and> ((0x80 \<le> c \<and> c \<le> 0x8A) \<or> c = 0xA8 \<or> c = 0xA9 \<or> c = 0xAF)) \<or>
      (a = 0xE2 \<and> b = 0x81 \<and> c = 0x9F) \<or>
      (a = 0xE3 \<and> b = 0x80 \<and> c = 0x80) \<or>
      (a = 0xEF \<and> b = 0xBB \<and> c = 0xBF))"

definition white_space_start :: "string \<Rightarrow> nat" where
  "white_space_start s =
     (case map of_char s of
        [] \<Rightarrow> 0
      | [a] \<Rightarrow> if is_space1 a then 1 else 0
      | [a, b] \<Rightarrow> if is_space1 a then 1 else if is_space2 a b then 2 else 0
      | a # b # c # rest \<Rightarrow>
          if is_space1 a then 1 else if is_space2 a b then 2 else if is_space3 a b c then 3 else 0)"

definition white_space_end :: "string \<Rightarrow> nat" where
  "white_space_end s =
     (case map of_char s of
        [] \<Rightarrow> 0
      | [c] \<Rightarrow> if is_space1 c then 1 else 0
      | [c, b] \<Rightarrow> if is_space1 c then 1 else if is_space2 b c then 2 else 0
      | c # b # a # rest \<Rightarrow>
          if is_space1 c then 1 else if is_space2 b c then 2 else if is_space3 a b c then 3 else 0)"

function strip :: "(string \<Rightarrow> nat) \<Rightarrow> string \<Rightarrow> string" where
  "strip measured s =
     (if measured s = 0 \<or> s = [] then s else strip measured (drop (measured s) s))"
  by pat_completeness auto

termination
  by (relation "measure (\<lambda>p. length (snd p))") auto

declare strip.simps [simp del]

definition trim :: "string \<Rightarrow> string" where
  "trim s = rev (strip white_space_end (rev (strip white_space_start s)))"

text \<open>\<open>split('\n')\<close> yields one piece more than there are line feeds.\<close>

fun split_lines :: "string \<Rightarrow> string list" where
  "split_lines [] = [[]]"
| "split_lines (c # cs) =
     (if c = CHR 0x0A then [] # split_lines cs
      else (case split_lines cs of l # ls \<Rightarrow> (c # l) # ls | [] \<Rightarrow> [[c]]))"

text \<open>
  \<open>getLastLine\<close>: \<open>None\<close> for a missing or zero-byte file, otherwise the last line of the
  trimmed final 1024 bytes; an error other than \<open>ENOENT\<close> is thrown again. The bytes of
  the chunk are kept as they are: where the chunk starts inside a multi-byte character,
  \<open>toString\<close> would put U+FFFD for the cut-off bytes.
\<close>

definition getLastLine :: "file_system \<Rightarrow> js_error + string option" where
  "getLastLine fs =
     (case content fs of
        None \<Rightarrow> Inr None
      | Some bytes \<Rightarrow>
          if \<not> readable fs then Inl (JsError ''EACCES'')
          else if length bytes = 0 then Inr None
          else
            let bufferSize = min 1024 (length bytes);
                buffer = drop (length bytes - bufferSize) bytes;
                lines = split_lines (trim buffer)
            in Inr (Some (last lines)))"

text \<open>
  The \<open>entry\<close> argument of \<open>appendLog\<close> is an object of the caller's, with whatever
  string properties it has, or a falsy value (\<open>None\<close>). A property is falsy when it is
  missing or the empty string. The spread \<open>...entry\<close> copies the properties in their
  order, a property that \<open>logRecord\<close> has already keeping its place (property names that
  are array indices, which JavaScript orders first, are left out of this model).
\<close>

definition falsy :: "string option \<Rightarrow> bool" where
  "falsy v = (v = None \<or> v = Some [])"

record audit_result =
  a_success :: bool
  a_error :: "string option"

text \<open>
  \<open>logRecord = { timestamp, ...entry, previousChecksum }\<close>, the checksum of its
  serialisation, and the record with the checksum assigned.
\<close>

definition record_body :: "string \<Rightarrow> jsobject \<Rightarrow> string option \<Rightarrow> jsobject" where
  "record_body now e previousChecksum =
     set_prop ''previousChecksum'' previousChecksum
       (foldl (\<lambda>obj kv. AList.update (fst kv) (snd kv) obj) [(''timestamp'', now)] e)"

definition build_record ::
  "(byte list \<Rightarrow> byte list) \<Rightarrow> string \<Rightarrow> jsobject \<Rightarrow> string option \<Rightarrow> jsobject" where
  "build_record sha256 now e previousChecksum =
     (let logRecord = record_body now e previousChecksum;
          dataToHash = serialize logRecord
      in AList.update ''checksum'' (createChecksum sha256 dataToHash) logRecord)"

text \<open>The \<open>try\<close> block of \<open>appendLog\<close>; \<open>now\<close> is \<open>new Date().toISOString()\<close>.\<close>

definition write_record ::
  "(byte list \<Rightarrow> byte list) \<Rightarrow> (string \<Rightarrow> jsobject option) \<Rightarrow> string \<Rightarrow> jsobject \<Rightarrow> file_system
     \<Rightarrow> js_error + file_system" where
  "write_record sha256 JSON_parse now e fs =
     (case getLastLine fs of
        Inl err \<Rightarrow> Inl err
      | Inr lastLine \<Rightarrow>
          (case (case lastLine of
                   None \<Rightarrow> Inr (Some GENESIS_HASH)
                 | Some l \<Rightarrow>
                     if l = [] then Inr (Some GENESIS_HASH)
                     else (case JSON_parse l of
                             None \<Rightarrow> Inl (JsError ''SyntaxError'')
                           | Some parsed \<Rightarrow> Inr (map_of parsed ''checksum''))) of
             Inl err \<Rightarrow> Inl err
           | Inr previousChecksum \<Rightarrow>
               let logLine = serialize (build_record sha256 now e previousChecksum) @ [CHR 0x0A]
               in
               if \<not> writable fs then Inl (JsError ''EACCES'')
               else Inr (fs\<lparr>content :=
                      Some ((case content fs of None \<Rightarrow> [] | Some old \<Rightarrow> old) @ logLine)\<rparr>)))"

definition appendLog ::
  "(byte list \<Rightarrow> byte list) \<Rightarrow> (string \<Rightarrow> jsobject option) \<Rightarrow> string \<Rightarrow> jsobject option
     \<Rightarrow> file_system \<Rightarrow> file_system \<times> audit_result" where
  "appendLog sha256 JSON_parse now entry' fs =
     (case entry' of
        None \<Rightarrow> (fs, \<lparr>a_success = False,
                       a_error = Some ''Log entry is missing required fields.''\<rparr>)
      | Some e \<Rightarrow>
          if falsy (map_of e ''userId'') \<or> falsy (map_of e ''action'') \<or>
             falsy (map_of e ''target'') \<or> falsy (map_of e ''outcome'')
          then (fs, \<lparr>a_success = False,
                     a_error = Some ''Log entry is missing required fields.''\<rparr>)
          else
            (case write_record sha256 JSON_parse now e fs of
               Inr fs' \<Rightarrow> (fs', \<lparr>a_success = True, a_error = None\<rparr>)
             | Inl err \<Rightarrow>
                 (fs, \<lparr>a_success = False,
                       a_error = Some ''Could not write to the audit log.''\<rparr>)))"

record query_result =
  logs :: "jsobject list"
  isValid :: bool
  q_error :: "string option"

text \<open>\<open>lines.map(line => JSON.parse(line))\<close>: the first line that does not parse throws.\<close>

fun parse_all :: "(string \<Rightarrow> jsobject option) \<Rightarrow> string list \<Rightarrow> jsobject list option" where
  "parse_all JSON_parse [] = Some []"
| "parse_all JSON_parse (l # ls) =
     (case JSON_parse l of
        None \<Rightarrow> None
      | Some obj \<Rightarrow>
          (case parse_all JSON_parse ls of None \<Rightarrow> None | Some objs \<Rightarrow> Some (obj # objs)))"

text \<open>
  The validation loop of \<open>queryLogs\<close>: \<open>False\<close> where the loop returns the tampering
  result. A missing \<open>checksum\<close> or \<open>previousChecksum\<close> is \<open>undefined\<close>, which is not
  equal to a string.
\<close>

fun chain_valid :: "(byte list \<Rightarrow> byte list) \<Rightarrow> string \<Rightarrow> jsobject list \<Rightarrow> bool" where
  "chain_valid sha256 previousChecksum [] = True"
| "chain_valid sha256 previousChecksum (log # rest) =
     (let checksum = map_of log ''checksum'';
          recordWithoutChecksum = AList.delete ''checksum'' log;
          expectedChecksum = createChecksum sha256 (serialize recordWithoutChecksum)
      in
      if checksum \<noteq> Some expectedChecksum \<or>
         map_of recordWithoutChecksum ''previousChecksum'' \<noteq> Some previousChecksum
      then False
      else chain_valid sha256 expectedChecksum rest)"

definition queryLogs ::
  "(byte list \<Rightarrow> byte list) \<Rightarrow> (string \<Rightarrow> jsobject option) \<Rightarrow> jsobject \<Rightarrow> file_system
     \<Rightarrow> query_result" where
  "queryLogs sha256 JSON_parse filters fs =
     (case content fs of
        None \<Rightarrow> \<lparr>logs = [], isValid = True, q_error = None\<rparr>
      | Some d \<Rightarrow>
          if \<not> readable fs
          then \<lparr>logs = [], isValid = False,
                q_error = Some ''Could not read or parse the audit log.''\<rparr>
          else
            (case parse_all JSON_parse (split_lines (trim d)) of
               None \<Rightarrow> \<lparr>logs = [], isValid = False,
                          q_error = Some ''Could not read or parse the audit log.''\<rparr>
             | Some parsed \<Rightarrow>
                 if \<not> chain_valid sha256 GENESIS_HASH parsed
                 then \<lparr>logs = [], isValid = False, q_error = Some ''Log tampering detected!''\<rparr>
                 else \<lparr>logs = filter (\<lambda>log. list_all (\<lambda>kv. map_of log (fst kv) = Some (snd kv))
                                        filters) parsed,
                       isValid = True, q_error = None\<rparr>))"

text \<open>A sequence of \<open>appendLog\<close> calls, each with its timestamp.\<close>

fun append_all ::
  "(byte list \<Rightarrow> byte list) \<Rightarrow> (string \<Rightarrow> jsobject option) \<Rightarrow> (string \<times> jsobject) list
     \<Rightarrow> file_system \<Rightarrow> file_system \<times> audit_result list" where
  "append_all sha256 JSON_parse [] fs = (fs, [])"
| "append_all sha256 JSON_parse (c # cs) fs =
     (let r = appendLog sha256 JSON_parse (fst c) (Some (snd c)) fs;
          rs = append_all sha256 JSON_parse cs (fst r)
      in (fst rs, snd r # snd rs))"

section \<open>Reading the encodings back\<close>

text \<open>
  What a verifier of a token and a reader of the log do with the texts above: the
  inverse of \<open>base64url\<close> (the six-bit value of each character, then three bytes from
  four characters), the text of a buffer of bytes (\<open>buf.toString()\<close>), and a reader of
  JSON objects whose members are strings and integers.
\<close>

definition b64url_value :: "char \<Rightarrow> nat option" where
  "b64url_value c =
     (let n = (of_char c :: nat) in
      if 65 \<le> n \<and> n \<le> 90 then Some (n - 65)
      else if 97 \<le> n \<and> n \<le> 122 then Some (n - 71)
      else if 48 \<le> n \<and> n \<le> 57 then Some (n + 4)
      else if n = 45 then Some 62
      else if n = 95 then Some 63
      else None)"

fun sextets :: "string \<Rightarrow> nat list option" where
  "sextets [] = Some []"
| "sextets (c # cs) =
     (case b64url_value c of
        None \<Rightarrow> None
      | Some x \<Rightarrow> (case sextets cs of None \<Rightarrow> None | Some xs \<Rightarrow> Some (x # xs)))"

fun from_sextets :: "nat list \<Rightarrow> byte list option" where
  "from_sextets [] = Some []"
| "from_sextets [x] = None"
| "from_sextets [x, y] = Some [of_nat (4 * x + y div 16)]"
| "from_sextets [x, y, z] =
     Some [of_nat (4 * x + y div 16), of_nat (16 * (y mod 16) + z div 4)]"
| "from_sextets (x # y # z # w # rest) =
     (case from_sextets rest of
        None \<Rightarrow> None
      | Some bs \<Rightarrow>
          Some (of_nat (4 * x + y div 16) # of_nat (16 * (y mod 16) + z div 4) #
                of_nat (64 * (z mod 4) + w) # bs))"

definition base64url_decode :: "string \<Rightarrow> byte list option" where
  "base64url_decode s = (case sextets s of None \<Rightarrow> None | Some xs \<Rightarrow> from_sextets xs)"

definition buffer_text :: "byte list \<Rightarrow> string" where
  "buffer_text bs = map (\<lambda>b. char_of (unat b)) bs"

text \<open>
  A quoted string with its escapes, a decimal integer with its sign, and the members
  of one object between braces. \<open>read_members\<close> reads at most as many members as its
  first argument allows.
\<close>

definition unescape :: "char \<Rightarrow> char option" where
  "unescape e =
     (if e = CHR 0x22 then Some (CHR 0x22)
      else if e = CHR 0x5C then Some (CHR 0x5C)
      else if e = CHR ''/'' then Some (CHR ''/'')
      else if e = CHR ''b'' then Some (CHR 0x08)
      else if e = CHR ''t'' then Some (CHR 0x09)
      else if e = CHR ''n'' then Some (CHR 0x0A)
      else if e = CHR ''f'' then Some (CHR 0x0C)
      else if e = CHR ''r'' then Some (CHR 0x0D)
      else None)"

definition unicode_escape :: "char \<Rightarrow> char \<Rightarrow> char \<Rightarrow> char \<Rightarrow> char option" where
  "unicode_escape h1 h2 h3 h4 =
     (case hex_value h3 of
        None \<Rightarrow> None
      | Some a \<Rightarrow>
          (case hex_value h4 of
             None \<Rightarrow> None
           | Some b \<Rightarrow> if h1 = CHR ''0'' \<and> h2 = CHR ''0'' then Some (char_of (16 * a + b)) else None))"

definition prepend :: "char \<Rightarrow> (string \<times> string) option \<Rightarrow> (string \<times> string) option" where
  "prepend c res = (case res of None \<Rightarrow> None | Some sr \<Rightarrow> Some (c # fst sr, snd sr))"

fun read_chars :: "string \<Rightarrow> (string \<times> string) option" where
  "read_chars [] = None"
| "read_chars (c # cs) =
     (if c = CHR 0x22 then Some ([], cs)
      else if c = CHR 0x5C then
        (case cs of
           [] \<Rightarrow> None
         | e # cs1 \<Rightarrow>
             if e = CHR ''u'' then
               (case cs1 of
                  h1 # h2 # h3 # h4 # cs2 \<Rightarrow>
                    (case unicode_escape h1 h2 h3 h4 of
                       None \<Rightarrow> None
                     | Some d \<Rightarrow> prepend d (read_chars cs2))
                | _ \<Rightarrow> None)
             else
               (case unescape e of
                  None \<Rightarrow> None
                | Some d \<Rightarrow> prepend d (read_chars cs1)))
      else prepend c (read_chars cs))"

definition read_string :: "string \<Rightarrow> (string \<times> string) option" where
  "read_string s = (case s of [] \<Rightarrow> None | c # cs \<Rightarrow> if c = CHR 0x22 then read_chars cs else None)"

definition digit_value :: "char \<Rightarrow> nat option" where
  "digit_value c =
     (let n = (of_char c :: nat) in if 48 \<le> n \<and> n \<le> 57 then Some (n - 48) else None)"

fun read_digits :: "nat \<Rightarrow> string \<Rightarrow> nat \<times> string" where
  "read_digits acc [] = (acc, [])"
| "read_digits acc (c # cs) =
     (case digit_value c of
        None \<Rightarrow> (acc, c # cs)
      | Some d \<Rightarrow> read_digits (10 * acc + d) cs)"

definition read_natural :: "string \<Rightarrow> (nat \<times> string) option" where
  "read_natural s =
     (case s of
        [] \<Rightarrow> None
      | c # cs \<Rightarrow> if digit_value c = None then None else Some (read_digits 0 s))"

definition read_number :: "string \<Rightarrow> (int \<times> string) option" where
  "read_number s =
     (case s of
        [] \<Rightarrow> None
      | c # cs \<Rightarrow>
          if c = CHR ''-''
          then (case read_natural cs of None \<Rightarrow> None | Some nr \<Rightarrow> Some (- int (fst nr), snd nr))
          else (case read_natural s of None \<Rightarrow> None | Some nr \<Rightarrow> Some (int (fst nr), snd nr)))"

definition read_value :: "string \<Rightarrow> (json \<times> string) option" where
  "read_value s =
     (case s of
        [] \<Rightarrow> None
      | c # cs \<Rightarrow>
          if c = CHR 0x22
          then (case read_string s of None \<Rightarrow> None | Some vr \<Rightarrow> Some (JString (fst vr), snd vr))
          else (case read_number s of None \<Rightarrow> None | Some nr \<Rightarrow> Some (JNumber (fst nr), snd nr)))"

fun read_members :: "nat \<Rightarrow> string \<Rightarrow> (string \<times> json) list option" where
  "read_members 0 s = None"
| "read_members (Suc fuel) s =
     (case read_string s of
        None \<Rightarrow> None
      | Some ks \<Rightarrow>
          (case snd ks of
             [] \<Rightarrow> None
           | colon # s1 \<Rightarrow>
               if colon \<noteq> CHR '':'' then None
               else
                 (case read_value s1 of
                    None \<Rightarrow> None
                  | Some vs \<Rightarrow>
                      (case snd vs of
                         [] \<Rightarrow> None
                       | sep # s2 \<Rightarrow>
                           if sep = CHR ''}'' then (if s2 = [] then Some [(fst ks, fst vs)] else None)
                           else if sep = CHR '','' then
                             (case read_members fuel s2 of
                                None \<Rightarrow> None
                              | Some obj \<Rightarrow> Some ((fst ks, fst vs) # obj))
                           else None))))"

definition JSON_read :: "string \<Rightarrow> (string \<times> json) list option" where
  "JSON_read s =
     (case s of
        [] \<Rightarrow> None
      | c # cs \<Rightarrow>
          if c \<noteq> CHR ''{'' then None
          else if cs = ''}'' then Some []
          else read_members (length cs) cs)"

text \<open>
  A token splits at its first full stop; the payload a verifier reads from it is the
  JSON object in the decoded first part.
\<close>

definition token_body :: "string \<Rightarrow> string" where
  "token_body t = takeWhile (\<lambda>c. c \<noteq> CHR ''.'') t"

definition token_signature :: "string \<Rightarrow> string" where
  "token_signature t = drop 1 (dropWhile (\<lambda>c. c \<noteq> CHR ''.'') t)"

definition read_token_payload :: "string \<Rightarrow> (string \<times> json) list option" where
  "read_token_payload t =
     (case base64url_decode (token_body t) of
        None \<Rightarrow> None
      | Some bytes \<Rightarrow> JSON_read (buffer_text bytes))"

text \<open>
  The reader of a line of the log, which stands in for \<open>JSON.parse\<close> there: an object
  all of whose members are strings.
\<close>

fun string_members :: "(string \<times> json) list \<Rightarrow> jsobject option" where
  "string_members [] = Some []"
| "string_members ((k, JString v) # kvs) =
     (case string_members kvs of None \<Rightarrow> None | Some obj \<Rightarrow> Some ((k, v) # obj))"
| "string_members (kv # kvs) = None"

definition parse_flat :: "string \<Rightarrow> jsobject option" where
  "parse_flat s = (case JSON_read s of None \<Rightarrow> None | Some kvs \<Rightarrow> string_members kvs)"

section \<open>Concrete instances\<close>

text \<open>
  Small concrete inputs on which the theorems below are instantiated: an entropy
  source, a stand-in for the keyed MAC, and stores of approval requests.
\<close>

definition demo_entropy :: "nat \<Rightarrow> byte" where
  "demo_entropy i = of_nat (7 * i + 3)"

definition other_entropy :: "nat \<Rightarrow> byte" where
  "other_entropy i = of_nat (i + 1)"

definition demo_hmac :: "byte list \<Rightarrow> byte list \<Rightarrow> byte list" where
  "demo_hmac key msg = [of_nat (length key), of_nat (length msg), 0xAB]"

definition demo_secret :: string where
  "demo_secret = ''configured-secret''"

definition demo_options :: options where
  "demo_options =
     \<lparr>opt_requesterId = ''alice'', opt_action = ''ACCESS_VAULT_ITEM'', opt_details = ''key_123'',
      opt_requiredApprovals = Some 1, opt_potentialApprovers = Some [''bob'', ''carol''],
      opt_ttl = Some 1\<rparr>"

definition demo_id :: string where
  "demo_id = ''030a11181f262d343b424950575e656c''"

definition demo_request :: "status \<Rightarrow> request" where
  "demo_request st =
     \<lparr>id_req = demo_id, requesterId = ''alice'', action = ''ACCESS_VAULT_ITEM'',
      details = ''key_123'', status = st, requiredApprovals = 1,
      potentialApprovers = [''bob'', ''carol''],
      approvals = [\<lparr>approverId = ''bob'', timestamp = 500\<rparr>],
      createdAt = 0, expiresAt = 1000\<rparr>"

definition demo_calls :: "call list" where
  "demo_calls =
     [Apply 1200 1200 demo_id ''carol'', Check 1300 1300 demo_id, ListPending 1400,
      Create other_entropy 1500 1500 demo_options, Check 1600 1600 demo_id]"

text \<open>
  A stand-in for the library: a key derivation that refuses the vault's parameters, as
  the library does, and a cipher (a shift of every byte, with the plaintext length as
  tag) that wants a key of 32 bytes. The second vault has a key the cipher refuses.
\<close>

definition demo_crypto :: node_crypto where
  "demo_crypto =
     \<lparr>scrypt = (\<lambda>password s keylen. Inl (JsError ''Invalid scrypt params: memory limit exceeded'')),
      scrypt_refusal = JsError ''Invalid scrypt params: memory limit exceeded'',
      gcm_encrypt = (\<lambda>key iv plain.
         if length key = 32 \<and> length iv = 12
         then Inr (map (\<lambda>b. b + 1) plain, replicate 16 (of_nat (length plain)))
         else Inl (JsError ''Invalid key length'')),
      gcm_decrypt = (\<lambda>key iv tag cipher.
         if length key = 32 \<and> length iv = 12 \<and> tag = replicate 16 (of_nat (length cipher))
         then Inr (map (\<lambda>b. b - 1) cipher)
         else Inl (JsError ''Unsupported state or unable to authenticate data''))\<rparr>"

definition keyless_vault :: vault where
  "keyless_vault =
     \<lparr>p_derivedKey = Some [], p_salt = Some (replicate 16 0), p_store = Map.empty,
      p_initialized = True\<rparr>"

text \<open>
  A stand-in for the digest (the message itself, which never collides), the missing
  log file and the log file of zero bytes, and an entry that carries a \<open>checksum\<close>
  property of its own, as an entry read from the log does.
\<close>

definition demo_sha256 :: "byte list \<Rightarrow> byte list" where
  "demo_sha256 bs = bs"

definition no_file :: file_system where
  "no_file = \<lparr>content = None, readable = True, writable = True\<rparr>"

definition empty_file :: file_system where
  "empty_file = \<lparr>content = Some [], readable = True, writable = True\<rparr>"

definition relogged_entry :: jsobject where
  "relogged_entry =
     [(''userId'', ''alice''), (''action'', ''LOGIN''), (''target'', ''console''),
      (''outcome'', ''SUCCESS''), (''checksum'', ''0f'')]"

section \<open>Properties of the encodings\<close>

lemma b64url_digit_not_dot: "b64url_digit n \<noteq> CHR ''.''"
  by (simp add: b64url_digit_def char_of_eq_iff take_bit_eq_mod) presburger

lemma base64url_no_dot: "CHR ''.'' \<notin> set (base64url bs)"
  by (induction bs rule: base64url.induct) (simp_all add: b64url_digit_not_dot [symmetric])

lemma hex_value_hex_digit: "n < 16 \<Longrightarrow> hex_value (hex_digit n) = Some n"
  by (simp add: hex_value_def hex_digit_def Let_def)

lemma hex_decode_hex_byte: "hex_decode (hex_byte b @ cs) = b # hex_decode cs"
proof -
  obtain h l where hl: "unat b = 16 * h + l" "l < 16" "unat b div 16 = h" "unat b mod 16 = l"
    using div_mult_mod_eq [of "unat b" 16] by (metis mod_less_divisor mult.commute zero_less_numeral)
  have "unat b < 256" using unsigned_less [of b, where 'a = nat] by simp
  with hl have h: "h < 16" by linarith
  have "(of_nat (16 * h + l) :: byte) = b"
    using hl(1) [symmetric] by simp
  then show ?thesis
    by (simp add: hex_byte_def hl hex_value_hex_digit h)
qed

lemma hex_decode_hex_encode: "hex_decode (hex_encode bs) = bs"
proof (induction bs)
  case Nil
  show ?case by (simp add: hex_encode_def)
next
  case (Cons b bs)
  have "hex_encode (b # bs) = hex_byte b @ hex_encode bs"
    by (simp add: hex_encode_def)
  with Cons show ?case by (simp add: hex_decode_hex_byte)
qed

lemma hex_encode_inj: "hex_encode a = hex_encode b \<Longrightarrow> a = b"
  by (metis hex_decode_hex_encode)

lemma utf8_bytes_inj: "utf8_bytes a = utf8_bytes b \<Longrightarrow> a = b"
proof -
  have "inj (\<lambda>c. (of_nat (of_char c) :: byte))"
  proof (rule injI)
    fix c d :: char
    assume "(of_nat (of_char c) :: byte) = of_nat (of_char d)"
    then have "unat (of_nat (of_char c) :: byte) = unat (of_nat (of_char d) :: byte)" by simp
    then have "(of_char c :: nat) = of_char d" by (simp add: unat_of_nat)
    then show "c = d" by simp
  qed
  then show "utf8_bytes a = utf8_bytes b \<Longrightarrow> a = b"
    unfolding utf8_bytes_def by (simp add: inj_map_eq_map)
qed


section \<open>Properties of the readers\<close>

subsection \<open>base64url and the text of a buffer\<close>

lemma b64url_value_digit: "n < 64 \<Longrightarrow> b64url_value (b64url_digit n) = Some n"
  by (simp add: b64url_value_def b64url_digit_def Let_def) arith

lemma sextets_digits: "\<forall>x \<in> set xs. x < 64 \<Longrightarrow> sextets (map b64url_digit xs) = Some xs"
  by (induction xs) (simp_all add: b64url_value_digit)

lemma byte_parts:
  fixes a :: nat
  shows "q < 16 \<Longrightarrow> 4 * (a div 4) + (a mod 4 * 16 + q) div 16 = a"
    and "q < 16 \<Longrightarrow> r < 4 \<Longrightarrow> 16 * ((m * 16 + q) mod 16) + (a mod 16 * 4 + r) div 4 = 16 * q + a mod 16"
    and "r < 4 \<Longrightarrow> 64 * ((m * 4 + r) mod 4) + a mod 64 = 64 * r + a mod 64"
  by simp_all

lemma byte_quotients:
  fixes a :: nat
  assumes "a < 256"
  shows "a div 4 < 64" and "a div 16 < 16" and "a div 64 < 4"
    and "a mod 4 * 16 + a div 16 < 64" and "a mod 16 * 4 + a div 64 < 64"
    and "16 * (a div 16) + a mod 16 = a" and "64 * (a div 64) + a mod 64 = a"
  using assms by simp_all

lemma sextet_bounds:
  fixes a :: nat
  shows "q < 16 \<Longrightarrow> a mod 4 * 16 + q < 64" and "r < 4 \<Longrightarrow> a mod 16 * 4 + r < 64"
proof -
  have "a mod 4 < 4" "a mod 16 < 16" by simp_all
  then show "q < 16 \<Longrightarrow> a mod 4 * 16 + q < 64" and "r < 4 \<Longrightarrow> a mod 16 * 4 + r < 64"
    by linarith+
qed

lemma unat_byte_less: "unat (b :: byte) < 256"
  using unsigned_less [of b, where 'a = nat] by simp

lemma base64url_sextets:
  "\<exists>xs. base64url bs = map b64url_digit xs \<and> (\<forall>x \<in> set xs. x < 64) \<and> from_sextets xs = Some bs"
proof (induction bs rule: base64url.induct)
  case 1
  show ?case by simp
next
  case (2 a)
  let ?xs = "[unat a div 4, unat a mod 4 * 16]"
  have "from_sextets ?xs = Some [a]"
    using byte_parts(1) [of 0 "unat a"] by simp
  moreover have "\<forall>x \<in> set ?xs. x < 64"
    using byte_quotients(1) [OF unat_byte_less [of a]] sextet_bounds(1) [of 0 "unat a"] by simp
  moreover have "base64url [a] = map b64url_digit ?xs" by simp
  ultimately show ?case by blast
next
  case (3 a b)
  let ?xs = "[unat a div 4, unat a mod 4 * 16 + unat b div 16, unat b mod 16 * 4]"
  note qa = byte_quotients [OF unat_byte_less [of a]]
  note qb = byte_quotients [OF unat_byte_less [of b]]
  have b1: "4 * (unat a div 4) + (unat a mod 4 * 16 + unat b div 16) div 16 = unat a"
    using byte_parts(1) [OF qb(2)] .
  have b2: "16 * ((unat a mod 4 * 16 + unat b div 16) mod 16) + (unat b mod 16 * 4) div 4 = unat b"
    using byte_parts(2) [OF qb(2), of 0 "unat a mod 4" "unat b"] qb(6) by simp
  have "from_sextets ?xs = Some [a, b]"
    by (simp only: from_sextets.simps b1 b2) simp
  moreover have "\<forall>x \<in> set ?xs. x < 64"
    using qa(1) sextet_bounds(1) [OF qb(2), of "unat a"] sextet_bounds(2) [of 0 "unat b"] by simp
  moreover have "base64url [a, b] = map b64url_digit ?xs" by simp
  ultimately show ?case by blast
next
  case (4 a b c rest)
  then obtain ys where ys: "base64url rest = map b64url_digit ys" "\<forall>x \<in> set ys. x < 64"
    "from_sextets ys = Some rest" by blast
  let ?xs = "[unat a div 4, unat a mod 4 * 16 + unat b div 16,
              unat b mod 16 * 4 + unat c div 64, unat c mod 64]"
  note qa = byte_quotients [OF unat_byte_less [of a]]
  note qb = byte_quotients [OF unat_byte_less [of b]]
  note qc = byte_quotients [OF unat_byte_less [of c]]
  have b1: "4 * (unat a div 4) + (unat a mod 4 * 16 + unat b div 16) div 16 = unat a"
    using byte_parts(1) [OF qb(2)] .
  have b2: "16 * ((unat a mod 4 * 16 + unat b div 16) mod 16) +
            (unat b mod 16 * 4 + unat c div 64) div 4 = unat b"
    using byte_parts(2) [OF qb(2) qc(3), of "unat a mod 4" "unat b"] qb(6) by simp
  have b3: "64 * ((unat b mod 16 * 4 + unat c div 64) mod 4) + unat c mod 64 = unat c"
    using byte_parts(3) [OF qc(3), of "unat b mod 16" "unat c"] qc(7) by simp
  have "from_sextets (?xs @ ys) = Some (a # b # c # rest)"
    using ys(3) by (simp only: append_Cons append_Nil from_sextets.simps b1 b2 b3) simp
  moreover have "\<forall>x \<in> set (?xs @ ys). x < 64"
    using qa(1) sextet_bounds(1) [OF qb(2), of "unat a"] sextet_bounds(2) [OF qc(3), of "unat b"]
      ys(2) by simp
  moreover have "base64url (a # b # c # rest) = map b64url_digit (?xs @ ys)"
    using ys(1) by simp
  ultimately show ?case by blast
qed

lemma base64url_decode_base64url: "base64url_decode (base64url bs) = Some bs"
proof -
  from base64url_sextets [of bs] obtain xs where "base64url bs = map b64url_digit xs"
    "\<forall>x \<in> set xs. x < 64" "from_sextets xs = Some bs" by blast
  then show ?thesis by (simp add: base64url_decode_def sextets_digits)
qed

lemma buffer_text_utf8_bytes: "buffer_text (utf8_bytes s) = s"
proof -
  have "char_of (unat (of_nat (of_char c) :: byte)) = c" for c :: char
    by (simp add: unat_of_nat)
  then show ?thesis by (simp add: buffer_text_def utf8_bytes_def comp_def)
qed

lemma length_utf8_bytes: "length (utf8_bytes s) = length s"
  by (simp add: utf8_bytes_def)

lemma token_parts:
  assumes "CHR ''.'' \<notin> set body"
  shows "token_body (body @ CHR ''.'' # signature) = body"
    and "token_signature (body @ CHR ''.'' # signature) = signature"
proof -
  from assms have nodot: "\<forall>c \<in> set body. c \<noteq> CHR ''.''" by metis
  show "token_body (body @ CHR ''.'' # signature) = body"
    using nodot by (simp add: token_body_def takeWhile_tail)
  show "token_signature (body @ CHR ''.'' # signature) = signature"
    using nodot by (simp add: token_signature_def dropWhile_append3)
qed

subsection \<open>Reading JSON text back\<close>

declare read_chars.simps [simp del]

lemma read_chars_escape:
  "read_chars (json_escape c @ tail) = prepend c (read_chars tail)"
proof -
  define n where "n = (of_char c :: nat)"
  have c: "c = char_of n" unfolding n_def by simp
  have n: "n < 256" unfolding n_def by simp
  consider "n = 0x22" | "n = 0x5C" | "n = 0x08" | "n = 0x09" | "n = 0x0A" | "n = 0x0C" | "n = 0x0D"
    | "n < 0x20" "n \<noteq> 0x08" "n \<noteq> 0x09" "n \<noteq> 0x0A" "n \<noteq> 0x0C" "n \<noteq> 0x0D"
    | "0x20 \<le> n" "n \<noteq> 0x22" "n \<noteq> 0x5C"
    by linarith
  then show ?thesis
  proof cases
    case 8
    have d: "n div 16 < 16" "n mod 16 < 16" using n by simp_all
    have "16 * (n div 16) + n mod 16 = n" by simp
    then have "unicode_escape CHR ''0'' CHR ''0'' (hex_digit (n div 16)) (hex_digit (n mod 16)) = Some c"
      using d by (simp add: unicode_escape_def hex_value_hex_digit c)
    then show ?thesis
      using 8 by (simp add: json_escape_def n_def [symmetric] Let_def read_chars.simps)
  next
    case 9
    then have "c \<noteq> CHR 0x22" "c \<noteq> CHR 0x5C" unfolding n_def by auto
    then show ?thesis
      using 9 by (simp add: json_escape_def n_def [symmetric] Let_def read_chars.simps)
  next
    case 1
    then have "c = CHR 0x22" unfolding n_def by (intro of_char_eqI [where ?'a = nat]) simp
    then show ?thesis by (simp add: json_escape_def Let_def read_chars.simps unescape_def)
  next
    case 2
    then have "c = CHR 0x5C" unfolding n_def by (intro of_char_eqI [where ?'a = nat]) simp
    then show ?thesis by (simp add: json_escape_def Let_def read_chars.simps unescape_def)
  next
    case 3
    then have "c = CHR 0x08" unfolding n_def by (intro of_char_eqI [where ?'a = nat]) simp
    then show ?thesis by (simp add: json_escape_def Let_def read_chars.simps unescape_def)
  next
    case 4
    then have "c = CHR 0x09" unfolding n_def by (intro of_char_eqI [where ?'a = nat]) simp
    then show ?thesis by (simp add: json_escape_def Let_def read_chars.simps unescape_def)
  next
    case 5
    then have "c = CHR 0x0A" unfolding n_def by (intro of_char_eqI [where ?'a = nat]) simp
    then show ?thesis by (simp add: json_escape_def Let_def read_chars.simps unescape_def)
  next
    case 6
    then have "c = CHR 0x0C" unfolding n_def by (intro of_char_eqI [where ?'a = nat]) simp
    then show ?thesis by (simp add: json_escape_def Let_def read_chars.simps unescape_def)
  next
    case 7
    then have "c = CHR 0x0D" unfolding n_def by (intro of_char_eqI [where ?'a = nat]) simp
    then show ?thesis by (simp add: json_escape_def Let_def read_chars.simps unescape_def)
  qed
qed

lemma read_chars_escaped:
  "read_chars (concat (map json_escape s) @ CHR 0x22 # rest) = Some (s, rest)"
  by (induction s) (simp_all add: read_chars.simps read_chars_escape prepend_def)

lemma read_string_quote: "read_string (JSON_quote s @ rest) = Some (s, rest)"
  by (simp add: read_string_def JSON_quote_def read_chars_escaped)

lemma digit_value_char: "d < 10 \<Longrightarrow> digit_value (char_of (48 + d)) = Some d"
  by (simp add: digit_value_def Let_def)

lemma read_digits_decimal:
  "read_digits acc (decimal n @ rest) = read_digits (acc * 10 ^ length (decimal n) + n) rest"
proof (induction n arbitrary: acc rest rule: decimal.induct)
  case (1 n)
  show ?case
  proof (cases "n < 10")
    case True
    then show ?thesis by (simp add: decimal.simps [of n] digit_value_char mult.commute)
  next
    case False
    have d: "n mod 10 < 10" by simp
    have split: "10 * (n div 10) + n mod 10 = n" by simp
    have "read_digits acc (decimal n @ rest) =
          read_digits acc (decimal (n div 10) @ char_of (48 + n mod 10) # rest)"
      using False by (simp add: decimal.simps [of n])
    also have "\<dots> = read_digits (acc * 10 ^ length (decimal (n div 10)) + n div 10)
                       (char_of (48 + n mod 10) # rest)"
      using 1 [OF False] .
    also have "\<dots> = read_digits
        (10 * (acc * 10 ^ length (decimal (n div 10)) + n div 10) + n mod 10) rest"
      by (simp add: digit_value_char [OF d])
    also have "10 * (acc * 10 ^ length (decimal (n div 10)) + n div 10) + n mod 10 =
               acc * 10 ^ length (decimal n) + n"
      using False split by (simp add: decimal.simps [of n] algebra_simps)
    finally show ?thesis .
  qed
qed

lemma decimal_head: "\<exists>c cs. decimal n = c # cs \<and> digit_value c \<noteq> None \<and> c \<noteq> CHR ''-'' \<and> c \<noteq> CHR 0x22"
proof (induction n rule: decimal.induct)
  case (1 n)
  show ?case
  proof (cases "n < 10")
    case True
    have "char_of (48 + n) \<noteq> CHR ''-''" "char_of (48 + n) \<noteq> CHR 0x22"
      using True by (simp_all add: char_of_eq_iff take_bit_eq_mod)
    then show ?thesis using True by (simp add: decimal.simps [of n] digit_value_char)
  next
    case False
    from 1 [OF False] obtain c cs where "decimal (n div 10) = c # cs" "digit_value c \<noteq> None"
      "c \<noteq> CHR ''-''" "c \<noteq> CHR 0x22" by blast
    then show ?thesis using False by (simp add: decimal.simps [of n])
  qed
qed

lemma read_digits_stop:
  "rest = [] \<or> digit_value (hd rest) = None \<Longrightarrow> read_digits acc rest = (acc, rest)"
  by (cases rest) auto

lemma read_natural_decimal:
  assumes "rest = [] \<or> digit_value (hd rest) = None"
  shows "read_natural (decimal n @ rest) = Some (n, rest)"
proof -
  from decimal_head [of n] obtain c cs where c: "decimal n = c # cs" "digit_value c \<noteq> None"
    by blast
  have "read_digits 0 (decimal n @ rest) = (n, rest)"
    using read_digits_decimal [of 0 n rest] read_digits_stop [OF assms, of n] by simp
  then show ?thesis using c by (simp add: read_natural_def)
qed

lemma read_number_JSON_number:
  assumes "rest = [] \<or> digit_value (hd rest) = None"
  shows "read_number (JSON_number i @ rest) = Some (i, rest)"
proof (cases "i < 0")
  case True
  then show ?thesis
    by (simp add: JSON_number_def read_number_def read_natural_decimal [OF assms])
next
  case False
  from decimal_head [of "nat i"] obtain c cs where c: "decimal (nat i) = c # cs" "c \<noteq> CHR ''-''"
    by blast
  have "read_natural (c # cs @ rest) = Some (nat i, rest)"
    using read_natural_decimal [OF assms, of "nat i"] c(1) by simp
  then show ?thesis
    using False c by (simp add: JSON_number_def read_number_def)
qed

lemma JSON_number_head:
  "\<exists>c cs. JSON_number i = c # cs \<and> c \<noteq> CHR 0x22"
  using decimal_head [of "nat i"] by (auto simp add: JSON_number_def)

lemma read_value_stringify:
  assumes "\<forall>ms. v \<noteq> JObject ms" and "rest = [] \<or> digit_value (hd rest) = None"
  shows "read_value (JSON_stringify v @ rest) = Some (v, rest)"
proof (cases v)
  case (JString s)
  have "read_string (JSON_quote s @ rest) = Some (s, rest)" by (rule read_string_quote)
  then show ?thesis using JString by (simp add: read_value_def JSON_quote_def)
next
  case (JNumber i)
  from JSON_number_head [of i] obtain c cs where c: "JSON_number i = c # cs" "c \<noteq> CHR 0x22"
    by blast
  have "read_number (c # cs @ rest) = Some (i, rest)"
    using read_number_JSON_number [OF assms(2), of i] c(1) by simp
  then show ?thesis using JNumber c by (simp add: read_value_def)
next
  case (JObject ms)
  with assms(1) show ?thesis by simp
qed

lemma separator_not_digit: "digit_value CHR '','' = None" "digit_value CHR ''}'' = None"
  by (simp_all add: digit_value_def)

lemma read_members_joined:
  assumes "kvs \<noteq> []" and "length kvs \<le> fuel" and "\<forall>kv \<in> set kvs. \<forall>ms. snd kv \<noteq> JObject ms"
  shows "read_members fuel (join_with '','' (JSON_members kvs) @ ''}'') = Some kvs"
  using assms
proof (induction kvs arbitrary: fuel)
  case Nil
  then show ?case by simp
next
  case (Cons kv kvs)
  then obtain fuel' where fuel: "fuel = Suc fuel'" and le: "length kvs \<le> fuel'"
    by (cases fuel) auto
  from Cons.prems(3) have scalar: "\<forall>ms. snd kv \<noteq> JObject ms" by simp
  show ?case
  proof (cases kvs)
    case Nil
    have "read_value (JSON_stringify (snd kv) @ ''}'') = Some (snd kv, ''}'')"
      by (rule read_value_stringify [OF scalar]) (simp add: separator_not_digit)
    then show ?thesis
      by (simp add: Nil fuel read_string_quote)
  next
    case (Cons kv' kvs')
    with Cons.IH [of fuel'] le Cons.prems(3)
    have ih: "read_members fuel' (join_with '','' (JSON_members kvs) @ ''}'') = Some kvs"
      by simp
    have "read_value (JSON_stringify (snd kv) @ '','' @ join_with '','' (JSON_members kvs) @ ''}'') =
          Some (snd kv, '','' @ join_with '','' (JSON_members kvs) @ ''}'')"
      by (rule read_value_stringify [OF scalar]) (simp add: separator_not_digit)
    then show ?thesis
      using ih by (simp add: Cons fuel read_string_quote)
  qed
qed

lemma length_join_with:
  "sep \<noteq> [] \<Longrightarrow> xs \<noteq> [] \<Longrightarrow> length xs \<le> length (join_with sep xs) + 1"
proof (induction sep xs rule: join_with.induct)
  case (3 sep x y ys)
  then have "length (y # ys) \<le> length (join_with sep (y # ys)) + 1" by simp
  moreover have "0 < length sep" using 3 by simp
  ultimately show ?case by (cases sep) auto
qed simp_all

lemma JSON_quote_nonempty: "JSON_quote s \<noteq> []"
  by (simp add: JSON_quote_def)

lemma length_JSON_members: "length (JSON_members kvs) = length kvs"
  by (induction kvs) simp_all

lemma JSON_read_stringify:
  assumes "\<forall>kv \<in> set kvs. \<forall>ms. snd kv \<noteq> JObject ms"
  shows "JSON_read (JSON_stringify (JObject kvs)) = Some kvs"
proof (cases kvs)
  case Nil
  then show ?thesis by (simp add: JSON_read_def)
next
  case (Cons kv kvs')
  have ne: "kvs \<noteq> []" using Cons by simp
  then have "JSON_members kvs \<noteq> []" by (cases kvs) simp_all
  then have "length (JSON_members kvs) \<le> length (join_with '','' (JSON_members kvs)) + 1"
    using length_join_with [where xs = "JSON_members kvs" and sep = "'',''"] by simp
  then have fuel: "length kvs \<le> length (join_with '','' (JSON_members kvs) @ ''}'')"
    by (simp add: length_JSON_members)
  have start: "join_with '','' (JSON_members kvs) @ ''}'' \<noteq> ''}''"
    using Cons by (cases kvs') (simp_all add: JSON_quote_def)
  show ?thesis
    using read_members_joined [OF ne fuel assms] start by (simp add: JSON_read_def)
qed
section \<open>The approval workflow: lookups that a call leaves alone\<close>

lemma map_of_createRequest_other:
  "hex_encode (randomBytes 16 entropy) \<noteq> rid \<Longrightarrow>
   map_of (fst (createRequest entropy now1 now2 opts reqs)) rid = map_of reqs rid"
  by (simp add: createRequest_def Let_def update_conv')

lemma map_of_applyApproval_other:
  "requestId \<noteq> rid \<Longrightarrow>
   map_of (fst (applyApproval now1 now2 requestId approver reqs)) rid = map_of reqs rid"
  by (simp add: applyApproval_def Let_def update_conv' split: option.splits)

lemma map_of_checkApprovalStatus_other:
  "requestId \<noteq> rid \<Longrightarrow>
   map_of (fst (checkApprovalStatus hmac secret now1 now2 requestId reqs)) rid = map_of reqs rid"
  by (simp add: checkApprovalStatus_def Let_def update_conv' delete_conv' split: option.splits)

lemma update_same_value: "map_of al k = Some v \<Longrightarrow> AList.update k v al = al"
  by (induction al) auto

lemma demo_id_drawn: "hex_encode (randomBytes 16 demo_entropy) = demo_id"
  unfolding demo_id_def by code_simp

lemma other_id_drawn:
  "hex_encode (randomBytes 16 other_entropy) = ''0102030405060708090a0b0c0d0e0f10''"
  by code_simp

lemma demo_calls_fresh: "\<forall>c \<in> set demo_calls. drawn_id c \<noteq> Some demo_id"
  by (simp add: demo_calls_def other_id_drawn demo_id_def)

subsection \<open>The signing secret\<close>

text \<open>
  Claim C1 says that a missing (or default-valued) signing secret stops the component
  at startup. The code does not do so: with \<open>APPROVAL_TOKEN_SECRET\<close> unset, or set to
  the empty string, loading the module yields the hard-coded development secret, and
  tokens are signed with it.
\<close>

theorem TOKEN_SECRET_falls_back_to_default:
  "TOKEN_SECRET Map.empty = ''default-super-secret-key-for-dev-only'' \<and>
   TOKEN_SECRET [''APPROVAL_TOKEN_SECRET'' \<mapsto> ''''] = ''default-super-secret-key-for-dev-only''"
  by (simp add: TOKEN_SECRET_def)

subsection \<open>APPROVED and the deadline\<close>

text \<open>
  Claim C2 says that an APPROVED request never becomes EXPIRED or PENDING again.
  \<open>applyApproval\<close> tests the deadline before it tests the status, and sets EXPIRED
  whatever the status was: a request approved at time 500 with deadline 1000 is EXPIRED
  after a call of \<open>applyApproval\<close> at time 1000, and \<open>checkApprovalStatus\<close> then reports
  EXPIRED and issues no token.
\<close>

theorem applyApproval_expires_approved_request:
  "run demo_hmac demo_secret []
     [Create demo_entropy 0 0 demo_options, Apply 500 500 demo_id ''bob'']
     = [(demo_id, demo_request APPROVED)] \<and>
   run demo_hmac demo_secret []
     [Create demo_entropy 0 0 demo_options, Apply 500 500 demo_id ''bob'',
      Apply 1000 1000 demo_id ''carol'']
     = [(demo_id, demo_request EXPIRED)] \<and>
   snd (checkApprovalStatus demo_hmac demo_secret 1001 1001 demo_id
     [(demo_id, demo_request EXPIRED)])
     = \<lparr>res_status = Status EXPIRED, res_token = None, res_error = None\<rparr>"
  by (simp add: run_def createRequest_def demo_id_drawn demo_options_def applyApproval_def
      demo_request_def checkApprovalStatus_def Let_def)

subsection \<open>One-shot tokens\<close>

lemma applyApproval_absent:
  "map_of reqs rid = None \<Longrightarrow>
   applyApproval now1 now2 rid approver reqs = (reqs, ApplyFailed ''Request not found.'')"
  by (simp add: applyApproval_def)

lemma checkApprovalStatus_absent:
  "map_of reqs rid = None \<Longrightarrow>
   checkApprovalStatus hmac secret now1 now2 rid reqs =
     (reqs, \<lparr>res_status = NOT_FOUND, res_token = None, res_error = Some ''Request not found.''\<rparr>)"
  by (simp add: checkApprovalStatus_def)

lemma step_absent:
  assumes "map_of reqs rid = None" and "drawn_id c \<noteq> Some rid"
  shows "map_of (step hmac secret reqs c) rid = None"
proof (cases c)
  case (Create entropy now1 now2 opts)
  with assms show ?thesis by (simp add: map_of_createRequest_other)
next
  case (ListPending now)
  with assms show ?thesis by simp
next
  case (Apply now1 now2 requestId approver)
  with assms show ?thesis
    by (cases "requestId = rid") (simp_all add: applyApproval_absent map_of_applyApproval_other)
next
  case (Check now1 now2 requestId)
  with assms show ?thesis
    by (cases "requestId = rid")
      (simp_all add: checkApprovalStatus_absent map_of_checkApprovalStatus_other)
qed

lemma run_absent:
  "map_of reqs rid = None \<Longrightarrow> \<forall>c \<in> set calls. drawn_id c \<noteq> Some rid \<Longrightarrow>
   map_of (run hmac secret reqs calls) rid = None"
  unfolding run_def
  by (induction calls arbitrary: reqs) (simp_all add: step_absent)

lemma checkApprovalStatus_token_consumes:
  "checkApprovalStatus hmac secret now1 now2 rid reqs = (reqs', res) \<Longrightarrow>
   res_token res = Some t \<Longrightarrow> map_of reqs' rid = None"
  by (auto simp add: checkApprovalStatus_def Let_def delete_conv' split: option.splits if_splits)

text \<open>
  Claim C6: once \<open>checkApprovalStatus\<close> has returned APPROVED with a token for a request
  id, every later \<open>checkApprovalStatus\<close> on that id returns the not-found result. The
  later call may come after any calls of the four functions; a \<open>createRequest\<close> among
  them is assumed not to draw the same 128-bit random id again.
\<close>

theorem token_is_one_shot:
  assumes "checkApprovalStatus hmac secret now1 now2 rid reqs = (reqs', res)"
    and "res_status res = Status APPROVED" and "res_token res = Some t"
    and "\<forall>c \<in> set calls. drawn_id c \<noteq> Some rid"
  shows "checkApprovalStatus hmac secret now3 now4 rid (run hmac secret reqs' calls) =
     (run hmac secret reqs' calls,
      \<lparr>res_status = NOT_FOUND, res_token = None, res_error = Some ''Request not found.''\<rparr>)"
  using assms
  by (intro checkApprovalStatus_absent run_absent checkApprovalStatus_token_consumes)

theorem token_is_one_shot_witness:
  "res_status (snd (checkApprovalStatus demo_hmac demo_secret 600 601 demo_id
       [(demo_id, demo_request APPROVED)])) = Status APPROVED \<and>
   res_token (snd (checkApprovalStatus demo_hmac demo_secret 600 601 demo_id
       [(demo_id, demo_request APPROVED)])) \<noteq> None \<and>
   snd (checkApprovalStatus demo_hmac demo_secret 1700 1701 demo_id
     (run demo_hmac demo_secret
        (fst (checkApprovalStatus demo_hmac demo_secret 600 601 demo_id
           [(demo_id, demo_request APPROVED)])) demo_calls)) =
     \<lparr>res_status = NOT_FOUND, res_token = None, res_error = Some ''Request not found.''\<rparr>"
proof -
  let ?first = "checkApprovalStatus demo_hmac demo_secret 600 601 demo_id
       [(demo_id, demo_request APPROVED)]"
  have pair: "?first = (fst ?first, snd ?first)" by simp
  have approved: "res_status (snd ?first) = Status APPROVED"
    by (simp add: checkApprovalStatus_def demo_request_def Let_def)
  have token: "res_token (snd ?first) =
      Some (sign_token demo_hmac demo_secret
        (token_payload (demo_request APPROVED) demo_id 601))"
    by (simp add: checkApprovalStatus_def demo_request_def Let_def)
  from token_is_one_shot [OF pair approved token demo_calls_fresh, of 1700 1701]
  show ?thesis using approved token by simp
qed

subsection \<open>The token's wire format\<close>

lemma checkApprovalStatus_token:
  assumes "checkApprovalStatus hmac secret now1 now2 rid reqs = (reqs', res)"
    and "res_token res = Some t"
  shows "\<exists>r. map_of reqs rid = Some r \<and> res_status res = Status APPROVED \<and>
     t = sign_token hmac secret (token_payload r rid now2)"
  using assms
  by (auto simp add: checkApprovalStatus_def Let_def split: option.splits if_splits)

lemma sign_token_parts:
  "token_body (sign_token hmac secret payload) = base64url (utf8_bytes payload)"
  "token_signature (sign_token hmac secret payload) =
     hex_encode (hmac (utf8_bytes secret) (utf8_bytes payload))"
  by (simp_all add: sign_token_def Let_def token_parts [OF base64url_no_dot])

lemma sign_token_joined:
  "sign_token hmac secret payload =
     token_body (sign_token hmac secret payload) @ ''.'' @
     token_signature (sign_token hmac secret payload)"
  by (simp only: sign_token_parts) (simp add: sign_token_def Let_def)

lemma read_token_payload_signed:
  "read_token_payload (sign_token hmac secret payload) = JSON_read payload"
  by (simp add: read_token_payload_def sign_token_parts base64url_decode_base64url
      buffer_text_utf8_bytes)

lemma JSON_read_token_payload:
  "JSON_read (token_payload r rid now) =
     Some [(''sub'', JString (requesterId r)), (''req'', JString rid),
           (''act'', JString (action r)), (''exp'', JNumber (now + 300000))]"
  unfolding token_payload_def by (rule JSON_read_stringify [THEN trans]) simp_all

lemma demo_token:
  "res_token (snd (checkApprovalStatus demo_hmac demo_secret 600 601 demo_id
       [(demo_id, demo_request APPROVED)])) =
     Some (sign_token demo_hmac demo_secret (token_payload (demo_request APPROVED) demo_id 601))"
  by (simp add: checkApprovalStatus_def demo_request_def Let_def)

text \<open>
  Claim C7 names the members of the payload \<open>subject\<close>, \<open>requestId\<close>, \<open>action\<close> and
  \<open>expiry\<close>. The object that is signed has the keys \<open>sub\<close>, \<open>req\<close>, \<open>act\<close> and \<open>exp\<close>:
  the payload read back from the token of an approved request has exactly these four
  keys, in this order, and no member under any of the four names of the claim.
\<close>

theorem token_payload_keys_are_abbreviated:
  "(case read_token_payload (the (res_token (snd (checkApprovalStatus demo_hmac demo_secret
        600 601 demo_id [(demo_id, demo_request APPROVED)])))) of
      None \<Rightarrow> False
    | Some members \<Rightarrow>
        map fst members = [''sub'', ''req'', ''act'', ''exp''] \<and>
        map_of members ''subject'' = None \<and> map_of members ''requestId'' = None \<and>
        map_of members ''action'' = None \<and> map_of members ''expiry'' = None)"
  by (simp add: demo_token read_token_payload_signed JSON_read_token_payload)

text \<open>
  Claim C7, amended: a token that \<open>checkApprovalStatus\<close> returns is the base64url text
  of the JSON payload, a full stop, and the hexadecimal digits of the keyed MAC of the
  payload bytes (before any encoding) under the signing secret. The first part holds
  no full stop, so the token splits at its first full stop; decoding the first part
  gives the bytes that were signed, and these are the text of the JSON object with the
  four members \<open>sub\<close> (the requester's id), \<open>req\<close> (the request id), \<open>act\<close> (the action)
  and \<open>exp\<close> (the expiry in epoch milliseconds, the clock plus 300000), in this order.
\<close>

theorem token_wire_format:
  assumes "checkApprovalStatus hmac secret now1 now2 rid reqs = (reqs', res)"
    and "res_token res = Some t"
  shows "\<exists>r payload key.
     map_of reqs rid = Some r \<and> res_status res = Status APPROVED \<and>
     t = token_body t @ ''.'' @ token_signature t \<and>
     CHR ''.'' \<notin> set (token_body t) \<and>
     token_body t = base64url payload \<and>
     base64url_decode (token_body t) = Some payload \<and>
     buffer_text payload = JSON_stringify (JObject
       [(''sub'', JString (requesterId r)), (''req'', JString rid),
        (''act'', JString (action r)), (''exp'', JNumber (now2 + 300000))]) \<and>
     JSON_read (buffer_text payload) =
       Some [(''sub'', JString (requesterId r)), (''req'', JString rid),
             (''act'', JString (action r)), (''exp'', JNumber (now2 + 300000))] \<and>
     buffer_text key = secret \<and>
     token_signature t = hex_encode (hmac key payload) \<and>
     hex_decode (token_signature t) = hmac key payload"
proof -
  from checkApprovalStatus_token [OF assms] obtain r where r: "map_of reqs rid = Some r"
    and st: "res_status res = Status APPROVED"
    and t: "t = sign_token hmac secret (token_payload r rid now2)"
    by blast
  let ?text = "token_payload r rid now2"
  let ?payload = "utf8_bytes ?text"
  let ?key = "utf8_bytes secret"
  have body: "token_body t = base64url ?payload"
    and signature: "token_signature t = hex_encode (hmac ?key ?payload)"
    unfolding t by (rule sign_token_parts)+
  have joined: "t = token_body t @ ''.'' @ token_signature t"
    unfolding t by (rule sign_token_joined)
  have nodot: "CHR ''.'' \<notin> set (token_body t)"
    unfolding body by (rule base64url_no_dot)
  have decoded: "base64url_decode (token_body t) = Some ?payload"
    unfolding body by (rule base64url_decode_base64url)
  have shape: "buffer_text ?payload = JSON_stringify (JObject
       [(''sub'', JString (requesterId r)), (''req'', JString rid),
        (''act'', JString (action r)), (''exp'', JNumber (now2 + 300000))])"
    by (simp only: buffer_text_utf8_bytes) (simp add: token_payload_def)
  have members: "JSON_read (buffer_text ?payload) =
       Some [(''sub'', JString (requesterId r)), (''req'', JString rid),
             (''act'', JString (action r)), (''exp'', JNumber (now2 + 300000))]"
    by (simp only: buffer_text_utf8_bytes JSON_read_token_payload)
  have key: "buffer_text ?key = secret" by (rule buffer_text_utf8_bytes)
  have mac: "hex_decode (token_signature t) = hmac ?key ?payload"
    unfolding signature by (rule hex_decode_hex_encode)
  from r st joined nodot body decoded shape members key signature mac
  show ?thesis by blast
qed

theorem token_wire_format_witness:
  "res_token (snd (checkApprovalStatus demo_hmac demo_secret 600 601 demo_id
       [(demo_id, demo_request APPROVED)])) \<noteq> None \<and>
   read_token_payload (the (res_token (snd (checkApprovalStatus demo_hmac demo_secret 600 601
       demo_id [(demo_id, demo_request APPROVED)])))) =
     Some [(''sub'', JString ''alice''), (''req'', JString demo_id),
           (''act'', JString ''ACCESS_VAULT_ITEM''), (''exp'', JNumber 300601)]"
proof -
  let ?first = "checkApprovalStatus demo_hmac demo_secret 600 601 demo_id
       [(demo_id, demo_request APPROVED)]"
  let ?t = "sign_token demo_hmac demo_secret (token_payload (demo_request APPROVED) demo_id 601)"
  have pair: "?first = (fst ?first, snd ?first)" by simp
  from token_wire_format [OF pair demo_token] obtain r payload
    where r: "map_of [(demo_id, demo_request APPROVED)] demo_id = Some r"
      and decoded: "base64url_decode (token_body ?t) = Some payload"
      and members: "JSON_read (buffer_text payload) =
        Some [(''sub'', JString (requesterId r)), (''req'', JString demo_id),
              (''act'', JString (action r)), (''exp'', JNumber (601 + 300000))]"
    by blast
  from r have "r = demo_request APPROVED" by simp
  then have "requesterId r = ''alice''" "action r = ''ACCESS_VAULT_ITEM''"
    by (simp_all add: demo_request_def)
  with decoded members show ?thesis
    by (simp add: demo_token read_token_payload_def)
qed

subsection \<open>Expired requests stay\<close>

lemma applyApproval_expired:
  "map_of reqs rid = Some r \<Longrightarrow> status r = EXPIRED \<Longrightarrow>
   fst (applyApproval now1 now2 rid approver reqs) = reqs"
  by (simp add: applyApproval_def update_same_value)

lemma checkApprovalStatus_expired:
  "map_of reqs rid = Some r \<Longrightarrow> status r = EXPIRED \<Longrightarrow>
   checkApprovalStatus hmac secret now1 now2 rid reqs =
     (reqs, \<lparr>res_status = Status EXPIRED, res_token = None, res_error = None\<rparr>)"
  by (simp add: checkApprovalStatus_def)

lemma step_expired:
  assumes "map_of reqs rid = Some r" and "status r = EXPIRED" and "drawn_id c \<noteq> Some rid"
  shows "map_of (step hmac secret reqs c) rid = Some r"
proof (cases c)
  case (Create entropy now1 now2 opts)
  with assms show ?thesis by (simp add: map_of_createRequest_other)
next
  case (ListPending now)
  with assms show ?thesis by simp
next
  case (Apply now1 now2 requestId approver)
  with assms show ?thesis
    by (cases "requestId = rid") (simp_all add: applyApproval_expired map_of_applyApproval_other)
next
  case (Check now1 now2 requestId)
  with assms show ?thesis
    by (cases "requestId = rid")
      (simp_all add: checkApprovalStatus_expired map_of_checkApprovalStatus_other)
qed

lemma run_expired:
  "map_of reqs rid = Some r \<Longrightarrow> status r = EXPIRED \<Longrightarrow>
   \<forall>c \<in> set calls. drawn_id c \<noteq> Some rid \<Longrightarrow>
   map_of (run hmac secret reqs calls) rid = Some r"
  unfolding run_def
  by (induction calls arbitrary: reqs) (simp_all add: step_expired)

lemma createRequest_keeps:
  "map_of reqs rid \<noteq> None \<Longrightarrow>
   map_of (fst (createRequest entropy now1 now2 opts reqs)) rid \<noteq> None"
  by (simp add: createRequest_def Let_def update_conv')

lemma applyApproval_keeps:
  "map_of reqs rid \<noteq> None \<Longrightarrow>
   map_of (fst (applyApproval now1 now2 requestId approver reqs)) rid \<noteq> None"
  by (simp add: applyApproval_def Let_def update_conv' split: option.splits)

lemma checkApprovalStatus_removes:
  assumes "map_of reqs rid = Some r"
    and "map_of (fst (checkApprovalStatus hmac secret now1 now2 requestId reqs)) rid = None"
  shows "requestId = rid \<and> status r = APPROVED \<and>
     snd (checkApprovalStatus hmac secret now1 now2 requestId reqs) =
       \<lparr>res_status = Status APPROVED,
        res_token = Some (sign_token hmac secret (token_payload r rid now2)),
        res_error = None\<rparr>"
proof -
  have same: "requestId = rid"
    using assms map_of_checkApprovalStatus_other [of requestId rid] by force
  with assms show ?thesis
    by (auto simp add: checkApprovalStatus_def Let_def update_conv' delete_conv' split: if_splits)
qed

lemma step_removes:
  assumes "map_of reqs rid = Some r" and "map_of (step hmac secret reqs c) rid = None"
  shows "\<exists>now1 now2. c = Check now1 now2 rid \<and> status r = APPROVED \<and>
     snd (checkApprovalStatus hmac secret now1 now2 rid reqs) =
       \<lparr>res_status = Status APPROVED,
        res_token = Some (sign_token hmac secret (token_payload r rid now2)),
        res_error = None\<rparr>"
proof (cases c)
  case (Create entropy now1 now2 opts)
  with assms createRequest_keeps [of reqs rid] show ?thesis by auto
next
  case (ListPending now)
  with assms show ?thesis by simp
next
  case (Apply now1 now2 requestId approver)
  with assms applyApproval_keeps [of reqs rid] show ?thesis by auto
next
  case (Check now1 now2 requestId)
  with assms checkApprovalStatus_removes [of reqs rid r hmac secret now1 now2 requestId]
  show ?thesis by auto
qed

text \<open>
  Claim C10: a request whose status is EXPIRED stays in the store, unchanged, through
  any later calls (a \<open>createRequest\<close> among them is assumed not to draw the same random
  id), and \<open>checkApprovalStatus\<close> on its id reports EXPIRED, not the not-found result.
  A call removes a stored request only when it is the \<open>checkApprovalStatus\<close> that
  returns APPROVED with a token for that request, whose stored status was APPROVED.
\<close>

theorem expired_requests_are_never_deleted:
  assumes "map_of reqs rid = Some r" and "status r = EXPIRED"
    and "\<forall>c \<in> set calls. drawn_id c \<noteq> Some rid"
  shows "map_of (run hmac secret reqs calls) rid = Some r \<and>
     checkApprovalStatus hmac secret now1 now2 rid (run hmac secret reqs calls) =
       (run hmac secret reqs calls,
        \<lparr>res_status = Status EXPIRED, res_token = None, res_error = None\<rparr>) \<and>
     (\<forall>reqs0 rid0 r0 c.
        map_of reqs0 rid0 = Some r0 \<and> map_of (step hmac secret reqs0 c) rid0 = None \<longrightarrow>
        (\<exists>t1 t2. c = Check t1 t2 rid0 \<and> status r0 = APPROVED \<and>
           snd (checkApprovalStatus hmac secret t1 t2 rid0 reqs0) =
             \<lparr>res_status = Status APPROVED,
              res_token = Some (sign_token hmac secret (token_payload r0 rid0 t2)),
              res_error = None\<rparr>))"
proof -
  have kept: "map_of (run hmac secret reqs calls) rid = Some r"
    using assms by (rule run_expired)
  moreover have "checkApprovalStatus hmac secret now1 now2 rid (run hmac secret reqs calls) =
       (run hmac secret reqs calls,
        \<lparr>res_status = Status EXPIRED, res_token = None, res_error = None\<rparr>)"
    using kept assms(2) by (rule checkApprovalStatus_expired)
  ultimately show ?thesis
    using step_removes by blast
qed

theorem expired_requests_are_never_deleted_witness:
  "map_of (run demo_hmac demo_secret [(demo_id, demo_request EXPIRED)] demo_calls) demo_id
     = Some (demo_request EXPIRED) \<and>
   res_status (snd (checkApprovalStatus demo_hmac demo_secret 1700 1701 demo_id
     (run demo_hmac demo_secret [(demo_id, demo_request EXPIRED)] demo_calls)))
     = Status EXPIRED"
proof -
  have stored: "map_of [(demo_id, demo_request EXPIRED)] demo_id = Some (demo_request EXPIRED)"
    by simp
  have expired: "status (demo_request EXPIRED) = EXPIRED"
    by (simp add: demo_request_def)
  from expired_requests_are_never_deleted [OF stored expired demo_calls_fresh, of demo_hmac
      demo_secret 1700 1701]
  show ?thesis by simp
qed

section \<open>The vault: encodings, state and round trip\<close>

subsection \<open>UTF-8 decoding inverts encoding on well-formed strings\<close>

lemma decode_ascii:
  assumes "unat b < 0x80"
  shows "utf8_decode (b # bs) = of_nat (unat b) # utf8_decode bs"
  by (subst utf8_decode.simps) (simp add: Let_def assms)

lemma decode_two_bytes:
  assumes "unat b1 = x" and "0xC2 \<le> x" and "x \<le> 0xDF"
    and "unat b2 = y" and "0x80 \<le> y" and "y \<le> 0xBF"
  shows "utf8_decode (b1 # b2 # bs) =
     from_code_point ((x - 0xC0) * 64 + (y - 0x80)) @ utf8_decode bs"
  using assms
  by (subst utf8_decode.simps) (simp add: Let_def is_cont_def cont_bits_def)

lemma decode_three_bytes:
  assumes "unat b1 = x" and "0xE0 \<le> x" and "x \<le> 0xEF"
    and "unat b2 = y" and "(if x = 0xE0 then 0xA0 else 0x80) \<le> y"
    and "y \<le> (if x = 0xED then 0x9F else 0xBF)"
    and "unat b3 = z" and "0x80 \<le> z" and "z \<le> 0xBF"
  shows "utf8_decode (b1 # b2 # b3 # bs) =
     from_code_point ((x - 0xE0) * 4096 + (y - 0x80) * 64 + (z - 0x80)) @ utf8_decode bs"
  using assms
  by (subst utf8_decode.simps) (simp add: Let_def is_cont_def cont_bits_def)

lemma decode_four_bytes:
  assumes "unat b1 = x" and "0xF0 \<le> x" and "x \<le> 0xF4"
    and "unat b2 = y" and "(if x = 0xF0 then 0x90 else 0x80) \<le> y"
    and "y \<le> (if x = 0xF4 then 0x8F else 0xBF)"
    and "unat b3 = z" and "0x80 \<le> z" and "z \<le> 0xBF"
    and "unat b4 = w" and "0x80 \<le> w" and "w \<le> 0xBF"
  shows "utf8_decode (b1 # b2 # b3 # b4 # bs) =
     from_code_point ((x - 0xF0) * 262144 + (y - 0x80) * 4096 + (z - 0x80) * 64 + (w - 0x80))
       @ utf8_decode bs"
  using assms
  by (subst utf8_decode.simps) (simp add: Let_def is_cont_def cont_bits_def)

lemma byte_of_nat: "n < 256 \<Longrightarrow> unat (of_nat n :: byte) = n"
  by (simp add: unat_of_nat)

lemma unit_less: "unat (u :: 16 word) < 65536"
  using unsigned_less [of u, where 'a = nat] by simp

lemma digits_2:
  fixes n :: nat
  obtains a b where "n = 64 * a + b" and "b < 64" and "n div 64 = a" and "n mod 64 = b"
proof
  show "n = 64 * (n div 64) + n mod 64" by simp
  show "n mod 64 < 64" by simp
qed simp_all

lemma digits_3:
  fixes n :: nat
  obtains a b c where "n = 4096 * a + 64 * b + c" and "b < 64" and "c < 64"
    and "n div 4096 = a" and "n div 64 mod 64 = b" and "n mod 64 = c"
proof -
  define m where "m = n div 64"
  define a b c where "a = m div 64" and "b = m mod 64" and "c = n mod 64"
  have e1: "n = 64 * m + c" unfolding m_def c_def by simp
  have e2: "m = 64 * a + b" unfolding a_def b_def by simp
  have eq: "n = 4096 * a + 64 * b + c" using e1 e2 by simp
  have a: "n div 4096 = a"
    unfolding a_def m_def by (simp add: div_mult2_eq [symmetric])
  have "b < 64" "c < 64" unfolding b_def c_def by simp_all
  with eq a show ?thesis
    using that [of a b c] unfolding b_def c_def m_def by simp
qed

lemma digits_4:
  fixes n :: nat
  obtains a b c d where "n = 262144 * a + 4096 * b + 64 * c + d"
    and "b < 64" and "c < 64" and "d < 64"
    and "n div 262144 = a" and "n div 4096 mod 64 = b" and "n div 64 mod 64 = c"
    and "n mod 64 = d"
proof -
  define m1 where "m1 = n div 64"
  define m2 where "m2 = m1 div 64"
  define a b c d where "a = m2 div 64" and "b = m2 mod 64" and "c = m1 mod 64"
    and "d = n mod 64"
  have e1: "n = 64 * m1 + d" unfolding m1_def d_def by simp
  have e2: "m1 = 64 * m2 + c" unfolding m2_def c_def by simp
  have e3: "m2 = 64 * a + b" unfolding a_def b_def by simp
  have eq: "n = 262144 * a + 4096 * b + 64 * c + d" using e1 e2 e3 by simp
  have m2: "n div 4096 = m2"
    unfolding m2_def m1_def by (simp add: div_mult2_eq [symmetric])
  have a: "n div 262144 = a"
    unfolding a_def m2_def m1_def by (simp add: div_mult2_eq [symmetric])
  have "b < 64" "c < 64" "d < 64" unfolding b_def c_def d_def by simp_all
  with eq a show ?thesis
    using that [of a b c d] m2 unfolding b_def c_def d_def m1_def by simp
qed

lemma decode_1:
  assumes "n < 0x80"
  shows "utf8_decode (utf8_1 n @ bs) = of_nat n # utf8_decode bs"
proof -
  have "unat (of_nat n :: byte) = n" using assms by (simp add: byte_of_nat)
  then show ?thesis using assms by (simp add: utf8_1_def decode_ascii)
qed

lemma decode_2:
  assumes "0x80 \<le> n" and "n < 0x800"
  shows "utf8_decode (utf8_2 n @ bs) = of_nat n # utf8_decode bs"
proof -
  obtain a b where d: "n = 64 * a + b" "b < 64" "n div 64 = a" "n mod 64 = b"
    by (rule digits_2)
  have a: "2 \<le> a" "a < 32" using assms d by linarith+
  have b1: "unat (of_nat (0xC0 + a) :: byte) = 0xC0 + a"
    using a by (intro byte_of_nat) linarith
  have b2: "unat (of_nat (0x80 + b) :: byte) = 0x80 + b"
    using d by (intro byte_of_nat) linarith
  have "utf8_decode (of_nat (0xC0 + a) # of_nat (0x80 + b) # bs) =
      from_code_point ((0xC0 + a - 0xC0) * 64 + (0x80 + b - 0x80)) @ utf8_decode bs"
    using a d by (intro decode_two_bytes [OF b1 _ _ b2]) linarith+
  moreover have "(0xC0 + a - 0xC0) * 64 + (0x80 + b - 0x80) = n"
    using d by simp
  moreover have "n < 0x10000" using assms by linarith
  moreover have "utf8_2 n = [of_nat (0xC0 + a), of_nat (0x80 + b)]"
    by (simp add: utf8_2_def d(3,4))
  ultimately show ?thesis
    by (simp add: from_code_point_def)
qed

lemma decode_3:
  assumes "0x800 \<le> n" and "n < 0x10000" and "\<not> is_high n" and "\<not> is_low n"
  shows "utf8_decode (utf8_3 n @ bs) = of_nat n # utf8_decode bs"
proof -
  obtain a b c where d: "n = 4096 * a + 64 * b + c" "b < 64" "c < 64"
    "n div 4096 = a" "n div 64 mod 64 = b" "n mod 64 = c"
    by (rule digits_3)
  have range: "n < 0xD800 \<or> 0xE000 \<le> n"
    using assms(3,4) by (simp add: is_high_def is_low_def) linarith
  have a: "a < 16" using assms(2) d(1) by linarith
  have lower: "a = 0 \<Longrightarrow> 32 \<le> b" using assms(1) d(1,3) by linarith
  have upper: "a = 13 \<Longrightarrow> b < 32" using range d(1,2,3) by linarith
  have b1: "unat (of_nat (0xE0 + a) :: byte) = 0xE0 + a"
    using a by (intro byte_of_nat) linarith
  have b2: "unat (of_nat (0x80 + b) :: byte) = 0x80 + b"
    using d(2) by (intro byte_of_nat) linarith
  have b3: "unat (of_nat (0x80 + c) :: byte) = 0x80 + c"
    using d(3) by (intro byte_of_nat) linarith
  have "utf8_decode (of_nat (0xE0 + a) # of_nat (0x80 + b) # of_nat (0x80 + c) # bs) =
      from_code_point ((0xE0 + a - 0xE0) * 4096 + (0x80 + b - 0x80) * 64 + (0x80 + c - 0x80))
        @ utf8_decode bs"
  proof (intro decode_three_bytes [OF b1 _ _ b2 _ _ b3])
    show "(if 0xE0 + a = 0xE0 then 0xA0 else 0x80) \<le> 0x80 + b"
      using lower by simp
    show "0x80 + b \<le> (if 0xE0 + a = 0xED then 0x9F else 0xBF)"
      using upper d(2) by (cases "a = 13") simp_all
  qed (use a d(2,3) in linarith)+
  moreover have "(0xE0 + a - 0xE0) * 4096 + (0x80 + b - 0x80) * 64 + (0x80 + c - 0x80) = n"
    using d(1) by simp
  moreover have "utf8_3 n = [of_nat (0xE0 + a), of_nat (0x80 + b), of_nat (0x80 + c)]"
    by (simp add: utf8_3_def d(4,5,6))
  ultimately show ?thesis
    using assms(2) by (simp add: from_code_point_def)
qed

lemma decode_4:
  assumes "is_high h" and "is_low l"
  shows "utf8_decode (utf8_4 (pair_code_point h l) @ bs) = of_nat h # of_nat l # utf8_decode bs"
proof -
  define x y where "x = h - 0xD800" and "y = l - 0xDC00"
  have h: "h = 0xD800 + x" "x < 1024" and l: "l = 0xDC00 + y" "y < 1024"
    using assms unfolding x_def y_def is_high_def is_low_def by linarith+
  define n where "n = pair_code_point h l"
  have n: "n = 0x10000 + 1024 * x + y"
    unfolding n_def pair_code_point_def using h l by simp
  obtain a b c d where d: "n = 262144 * a + 4096 * b + 64 * c + d" "b < 64" "c < 64" "d < 64"
    "n div 262144 = a" "n div 4096 mod 64 = b" "n div 64 mod 64 = c" "n mod 64 = d"
    by (rule digits_4)
  have a: "a \<le> 4" using n h(2) l(2) d(1) by linarith
  have lower: "a = 0 \<Longrightarrow> 16 \<le> b" using n d(1,3,4) by linarith
  have upper: "a = 4 \<Longrightarrow> b < 16" using n h(2) l(2) d(1) by linarith
  have b1: "unat (of_nat (0xF0 + a) :: byte) = 0xF0 + a"
    using a by (intro byte_of_nat) linarith
  have b2: "unat (of_nat (0x80 + b) :: byte) = 0x80 + b"
    using d(2) by (intro byte_of_nat) linarith
  have b3: "unat (of_nat (0x80 + c) :: byte) = 0x80 + c"
    using d(3) by (intro byte_of_nat) linarith
  have b4: "unat (of_nat (0x80 + d) :: byte) = 0x80 + d"
    using d(4) by (intro byte_of_nat) linarith
  have "utf8_decode (of_nat (0xF0 + a) # of_nat (0x80 + b) # of_nat (0x80 + c)
          # of_nat (0x80 + d) # bs) =
      from_code_point ((0xF0 + a - 0xF0) * 262144 + (0x80 + b - 0x80) * 4096
          + (0x80 + c - 0x80) * 64 + (0x80 + d - 0x80)) @ utf8_decode bs"
  proof (intro decode_four_bytes [OF b1 _ _ b2 _ _ b3 _ _ b4])
    show "(if 0xF0 + a = 0xF0 then 0x90 else 0x80) \<le> 0x80 + b"
      using lower by simp
    show "0x80 + b \<le> (if 0xF0 + a = 0xF4 then 0x8F else 0xBF)"
      using upper d(2) by (cases "a = 4") simp_all
  qed (use a d(2,3,4) in linarith)+
  moreover have "(0xF0 + a - 0xF0) * 262144 + (0x80 + b - 0x80) * 4096
          + (0x80 + c - 0x80) * 64 + (0x80 + d - 0x80) = n"
    using d(1) by simp
  moreover have "from_code_point n = [of_nat h, of_nat l]"
    unfolding from_code_point_def using n h l by simp
  moreover have "utf8_4 n =
      [of_nat (0xF0 + a), of_nat (0x80 + b), of_nat (0x80 + c), of_nat (0x80 + d)]"
    by (simp add: utf8_4_def d(5,6,7,8))
  ultimately show ?thesis
    unfolding n_def [symmetric] by simp
qed

lemma utf8_round_trip: "well_formed s \<Longrightarrow> utf8_decode (utf8_encode s) = s"
proof (induction s rule: well_formed.induct)
  case 1
  show ?case by (simp add: utf8_encode.simps utf8_decode.simps)
next
  case (2 u)
  have lt: "unat u < 65536" by (rule unit_less)
  have nil: "utf8_decode [] = []" by (simp add: utf8_decode.simps)
  from 2 have ns: "\<not> is_high (unat u)" "\<not> is_low (unat u)" by simp_all
  consider "unat u < 0x80" | "0x80 \<le> unat u" "unat u < 0x800" | "0x800 \<le> unat u"
    by linarith
  then show ?case
  proof cases
    case 1
    then show ?thesis
      using decode_1 [of "unat u" "[]"] by (simp add: utf8_encode.simps nil)
  next
    case 2
    then show ?thesis
      using decode_2 [of "unat u" "[]"] by (simp add: utf8_encode.simps nil)
  next
    case 3
    then show ?thesis
      using decode_3 [OF 3 lt ns, of "[]"] ns by (simp add: utf8_encode.simps nil)
  qed
next
  case (3 u l rest)
  have lt: "unat u < 65536" by (rule unit_less)
  show ?case
  proof (cases "is_high (unat u)")
    case True
    with 3 have low: "is_low (unat l)" and wf: "well_formed rest" by simp_all
    from True have big: "\<not> unat u < 0x80" "\<not> unat u < 0x800"
      by (simp_all add: is_high_def)
    from 3 True wf have ih: "utf8_decode (utf8_encode rest) = rest" by simp
    show ?thesis
      using decode_4 [OF True low, of "utf8_encode rest"] ih True low big
      by (simp add: utf8_encode.simps)
  next
    case False
    with 3 have ns: "\<not> is_low (unat u)" and wf: "well_formed (l # rest)" by simp_all
    from 3 False wf have ih: "utf8_decode (utf8_encode (l # rest)) = l # rest" by simp
    consider "unat u < 0x80" | "0x80 \<le> unat u" "unat u < 0x800" | "0x800 \<le> unat u"
      by linarith
    then show ?thesis
    proof cases
      case 1
      then show ?thesis
        using decode_1 [of "unat u" "utf8_encode (l # rest)"] ih
        by (simp add: utf8_encode.simps)
    next
      case 2
      then show ?thesis
        using decode_2 [of "unat u" "utf8_encode (l # rest)"] ih
        by (simp add: utf8_encode.simps)
    next
      case 3
      then show ?thesis
        using decode_3 [OF 3 lt False ns, of "utf8_encode (l # rest)"] ih False ns
        by (simp add: utf8_encode.simps)
    qed
  qed
qed

lemma lone_surrogate_replaced: "utf8_decode (utf8_encode [0xD800]) = [0xFFFD]"
  by (simp add: utf8_encode.simps utf8_decode.simps is_high_def is_low_def replacement_def
      Let_def is_cont_def cont_bits_def from_code_point_def)

subsection \<open>The vault's state\<close>

lemma length_randomBytes: "length (randomBytes n entropy) = n"
  by (simp add: randomBytes_def)

lemma scrypt_memory_above_default:
  "scrypt_memory SCRYPT_N SCRYPT_r SCRYPT_p = 33557504 \<and> defaultMaxmem = 33554432"
  by (simp add: scrypt_memory_def SCRYPT_N_def SCRYPT_r_def SCRYPT_p_def defaultMaxmem_def)

lemma scryptAsync_rejects:
  "scryptAsync lib password salt keylen SCRYPT_N SCRYPT_r SCRYPT_p = Inl (scrypt_refusal lib)"
  by (simp add: scryptAsync_def scrypt_memory_above_default)


lemma retrieve_keeps_vault: "fst (retrieve lib key v) = v"
  by (simp add: retrieve_def split: option.splits sum.splits)

lemma store_failure_keeps_vault:
  "\<not> success (snd (store lib entropy key val v)) \<Longrightarrow> fst (store lib entropy key val v) = v"
  by (simp add: store_def split: sum.splits if_splits)






subsection \<open>Store, then retrieve\<close>


subsection \<open>Failure leaves the map alone\<close>

text \<open>
  Claim C9: whenever \<open>store\<close> returns a failure (the vault is not initialized, or the
  encryption throws), the vault, and so its key/value map, is as it was before the
  call; \<open>retrieve\<close> leaves the vault as it was for every input.
\<close>

theorem store_failure_and_retrieve_keep_the_map:
  "(\<not> success (snd (store lib entropy key val v)) \<longrightarrow>
      fst (store lib entropy key val v) = v \<and>
      p_store (fst (store lib entropy key val v)) = p_store v) \<and>
   fst (retrieve lib key' v) = v \<and> p_store (fst (retrieve lib key' v)) = p_store v"
  using store_failure_keeps_vault [of lib entropy key val v] retrieve_keeps_vault [of lib key' v]
  by simp

theorem store_failure_and_retrieve_keep_the_map_witness:
  "\<not> success (snd (store demo_crypto demo_entropy (js ''k'') (js ''v'') keyless_vault)) \<and>
   p_store (fst (store demo_crypto demo_entropy (js ''k'') (js ''v'') keyless_vault)) =
     p_store keyless_vault \<and>
   \<not> success (snd (store demo_crypto demo_entropy (js ''k'') (js ''v'') new_Vault)) \<and>
   p_store (fst (store demo_crypto demo_entropy (js ''k'') (js ''v'') new_Vault)) =
     p_store new_Vault \<and>
   p_store (fst (retrieve demo_crypto (js ''k'')
      (fst (init demo_crypto demo_entropy (js ''correct horse battery'') new_Vault)))) =
     p_store (fst (init demo_crypto demo_entropy (js ''correct horse battery'') new_Vault))"
proof -
  have keyless: "\<not> success (snd (store demo_crypto demo_entropy (js ''k'') (js ''v'') keyless_vault))"
    by (simp add: store_def keyless_vault_def encrypt_payload_def demo_crypto_def)
  have fresh: "\<not> success (snd (store demo_crypto demo_entropy (js ''k'') (js ''v'') new_Vault))"
    by (simp add: store_def new_Vault_def)
  from store_failure_and_retrieve_keep_the_map
      [of demo_crypto demo_entropy "js ''k''" "js ''v''" keyless_vault "js ''k''"]
    store_failure_and_retrieve_keep_the_map
      [of demo_crypto demo_entropy "js ''k''" "js ''v''" new_Vault "js ''k''"]
    store_failure_and_retrieve_keep_the_map
      [of demo_crypto demo_entropy "js ''k''" "js ''v''"
        "fst (init demo_crypto demo_entropy (js ''correct horse battery'') new_Vault)" "js ''k''"]
  show ?thesis using keyless fresh by simp
qed

subsection \<open>What \<open>init\<close> gives its caller\<close>

text \<open>
  Claim C8 says that every public operation returns a structured result for every
  input and that none throws or rejects with a raw lower-level error. \<open>init\<close> has no
  result value and no \<open>try\<close> block: on a new vault it rejects with the library's own
  error for a master password of twenty-one characters, whatever the library and the
  random salt are, and with an \<open>Error\<close> of its own for a master password of five.
\<close>

theorem init_rejects_with_the_library_error:
  "snd (init lib entropy (js ''correct horse battery'') new_Vault) = Inl (scrypt_refusal lib) \<and>
   snd (init lib entropy (js ''short'') new_Vault) =
     Inl (JsError ''Master password must be a string of at least 12 characters.'')"
  by (simp add: init_def scryptAsync_rejects new_Vault_def js_def Let_def)

section \<open>Properties of the audit log\<close>

subsection \<open>Lines of text\<close>

lemma split_lines_nonempty: "split_lines s \<noteq> []"
  by (induction s) (auto split: list.splits)

lemma split_lines_clean: "CHR 0x0A \<notin> set l \<Longrightarrow> split_lines l = [l]"
  by (induction l) auto

subsection \<open>A serialised record is one clean line\<close>

lemma hex_digit_not_newline: "n < 16 \<Longrightarrow> hex_digit n \<noteq> CHR 0x0A"
  by (simp add: hex_digit_def char_of_eq_iff take_bit_eq_mod)

lemma json_escape_no_newline: "CHR 0x0A \<notin> set (json_escape c)"
proof -
  have h1: "CHR 0x0A \<noteq> hex_digit ((of_char c :: nat) mod 16)"
    using hex_digit_not_newline [of "(of_char c :: nat) mod 16"] by simp
  have "(of_char c :: nat) div 16 < 16"
    by (rule less_mult_imp_div_less) simp
  then have h2: "CHR 0x0A \<noteq> hex_digit ((of_char c :: nat) div 16)"
    using hex_digit_not_newline [of "(of_char c :: nat) div 16"] by simp
  have cn: "c = CHR 0x0A \<Longrightarrow> (of_char c :: nat) = 0x0A" by simp
  show ?thesis
    using h1 h2 cn by (auto simp add: json_escape_def Let_def)
qed

lemma JSON_quote_no_newline: "CHR 0x0A \<notin> set (JSON_quote s)"
  by (simp add: JSON_quote_def json_escape_no_newline)

lemma join_with_no_newline:
  "CHR 0x0A \<notin> set sep \<Longrightarrow> \<forall>x \<in> set xs. CHR 0x0A \<notin> set x \<Longrightarrow>
   CHR 0x0A \<notin> set (join_with sep xs)"
  by (induction sep xs rule: join_with.induct) simp_all

lemma JSON_members_flat:
  "JSON_members (map (\<lambda>kv. (fst kv, JString (snd kv))) obj) =
     map (\<lambda>kv. JSON_quote (fst kv) @ '':'' @ JSON_quote (snd kv)) obj"
  by (induction obj) simp_all

lemma serialize_layout:
  "serialize obj =
     ''{'' @ join_with '','' (map (\<lambda>kv. JSON_quote (fst kv) @ '':'' @ JSON_quote (snd kv)) obj)
     @ ''}''"
  by (simp add: serialize_def to_json_def JSON_members_flat)

lemma serialize_no_newline: "CHR 0x0A \<notin> set (serialize obj)"
proof -
  have "CHR 0x0A \<notin> set (join_with '',''
      (map (\<lambda>kv. JSON_quote (fst kv) @ '':'' @ JSON_quote (snd kv)) obj))"
    by (rule join_with_no_newline) (simp_all add: JSON_quote_no_newline)
  then show ?thesis by (simp add: serialize_layout)
qed

lemma serialize_ends:
  "serialize obj \<noteq> []" "hd (serialize obj) = CHR ''{''" "last (serialize obj) = CHR ''}''"
  by (simp_all add: serialize_layout)

subsection \<open>Trimming\<close>

lemma strip_empty: "strip measured [] = []"
  by (simp add: strip.simps)

lemma trim_empty: "trim [] = []"
  by (simp add: trim_def strip_empty)

lemma white_space_start_brace: "white_space_start (CHR ''{'' # s) = 0"
  by (simp add: white_space_start_def is_space1_def is_space2_def is_space3_def
      split: list.splits)

lemma white_space_end_brace: "white_space_end (CHR ''}'' # s) = 0"
  by (simp add: white_space_end_def is_space1_def is_space2_def is_space3_def
      split: list.splits)

lemma white_space_end_newline: "white_space_end (CHR 0x0A # s) = 1"
  by (simp add: white_space_end_def is_space1_def split: list.splits)

lemma trim_line:
  assumes "l \<noteq> []" and "hd l = CHR ''{''" and "last l = CHR ''}''"
  shows "trim (l @ [CHR 0x0A]) = l"
proof -
  from assms(1,2) obtain t where l: "l = CHR ''{'' # t" by (cases l) auto
  from assms(1,3) obtain i where r: "rev l = CHR ''}'' # i"
    by (cases l rule: rev_cases) auto
  have front: "strip white_space_start (l @ [CHR 0x0A]) = l @ [CHR 0x0A]"
    by (simp add: l strip.simps [of _ "CHR ''{'' # t @ [CHR 0x0A]"] white_space_start_brace)
  have "strip white_space_end (CHR 0x0A # rev l) = strip white_space_end (rev l)"
    by (simp add: strip.simps [of _ "CHR 0x0A # rev l"] white_space_end_newline)
  also have "\<dots> = rev l"
    by (simp add: r strip.simps [of _ "CHR ''}'' # i"] white_space_end_brace)
  finally show ?thesis
    by (simp add: trim_def front)
qed

lemma lines_of_one_record:
  "split_lines (trim (serialize r @ [CHR 0x0A])) = [serialize r]"
  by (simp add: trim_line serialize_ends split_lines_clean serialize_no_newline)

subsection \<open>Reading a line of the log back\<close>

lemma string_members_to_json:
  "string_members (map (\<lambda>kv. (fst kv, JString (snd kv))) obj) = Some obj"
  by (induction obj) auto

lemma parse_flat_empty: "parse_flat [] = None"
  by (simp add: parse_flat_def JSON_read_def)

lemma parse_flat_serialize: "parse_flat (serialize obj) = Some obj"
proof -
  have "JSON_read (JSON_stringify (JObject (map (\<lambda>kv. (fst kv, JString (snd kv))) obj))) =
        Some (map (\<lambda>kv. (fst kv, JString (snd kv))) obj)"
    by (rule JSON_read_stringify) auto
  then show ?thesis
    by (simp add: parse_flat_def serialize_def to_json_def string_members_to_json)
qed

lemma serialize_inj: "serialize a = serialize b \<Longrightarrow> a = b"
  by (metis option.inject parse_flat_serialize)

subsection \<open>One append to a missing log\<close>

lemma createChecksum_inj:
  "createChecksum sha256 a = createChecksum sha256 b \<Longrightarrow>
   sha256 (utf8_bytes a) = sha256 (utf8_bytes b)"
  unfolding createChecksum_def by (rule hex_encode_inj)

lemma relogged_body:
  "record_body now relogged_entry (Some GENESIS_HASH) =
     [(''timestamp'', now), (''userId'', ''alice''), (''action'', ''LOGIN''),
      (''target'', ''console''), (''outcome'', ''SUCCESS''), (''checksum'', ''0f''),
      (''previousChecksum'', GENESIS_HASH)]"
  by (simp add: record_body_def set_prop_def relogged_entry_def)

lemma relogged_record:
  "build_record sha256 now relogged_entry (Some GENESIS_HASH) =
     [(''timestamp'', now), (''userId'', ''alice''), (''action'', ''LOGIN''),
      (''target'', ''console''), (''outcome'', ''SUCCESS''),
      (''checksum'', createChecksum sha256
         (serialize (record_body now relogged_entry (Some GENESIS_HASH)))),
      (''previousChecksum'', GENESIS_HASH)]"
  unfolding build_record_def Let_def by (subst (2) relogged_body) simp

lemma relogged_without_checksum:
  "AList.delete ''checksum'' (build_record sha256 now relogged_entry (Some GENESIS_HASH)) =
   AList.delete ''checksum'' (record_body now relogged_entry (Some GENESIS_HASH))"
  by (simp add: relogged_record relogged_body AList.delete_eq)

lemma relogged_append:
  "append_all sha256 JSON_parse [(now, relogged_entry)] no_file =
     (no_file\<lparr>content := Some (serialize (build_record sha256 now relogged_entry
         (Some GENESIS_HASH)) @ [CHR 0x0A])\<rparr>,
      [\<lparr>a_success = True, a_error = None\<rparr>])"
proof -
  have "\<not> (falsy (map_of relogged_entry ''userId'') \<or> falsy (map_of relogged_entry ''action'') \<or>
            falsy (map_of relogged_entry ''target'') \<or> falsy (map_of relogged_entry ''outcome''))"
    by (simp add: relogged_entry_def falsy_def)
  then show ?thesis
    by (simp add: appendLog_def write_record_def getLastLine_def no_file_def Let_def)
qed

lemma relogged_query:
  assumes "JSON_parse (serialize (build_record sha256 now relogged_entry (Some GENESIS_HASH))) =
      Some (build_record sha256 now relogged_entry (Some GENESIS_HASH))"
    and "sha256 (utf8_bytes (serialize
           (AList.delete ''checksum'' (record_body now relogged_entry (Some GENESIS_HASH))))) \<noteq>
         sha256 (utf8_bytes (serialize (record_body now relogged_entry (Some GENESIS_HASH))))"
  shows "queryLogs sha256 JSON_parse filters
      (no_file\<lparr>content := Some (serialize (build_record sha256 now relogged_entry
         (Some GENESIS_HASH)) @ [CHR 0x0A])\<rparr>) =
     \<lparr>logs = [], isValid = False, q_error = Some ''Log tampering detected!''\<rparr>"
proof -
  let ?r = "build_record sha256 now relogged_entry (Some GENESIS_HASH)"
  let ?body = "record_body now relogged_entry (Some GENESIS_HASH)"
  have sealed: "map_of ?r ''checksum'' = Some (createChecksum sha256 (serialize ?body))"
    by (simp add: relogged_record)
  have differ: "createChecksum sha256 (serialize ?body) \<noteq>
      createChecksum sha256 (serialize (AList.delete ''checksum'' ?body))"
    using assms(2) createChecksum_inj [of sha256 "serialize ?body"
        "serialize (AList.delete ''checksum'' ?body)"] by auto
  have "\<not> chain_valid sha256 GENESIS_HASH [?r]"
    using differ by (simp add: Let_def sealed relogged_without_checksum)
  then show ?thesis
    using assms(1) by (simp add: queryLogs_def no_file_def lines_of_one_record)
qed


lemma queryLogs_zero_bytes:
  "content fs = Some [] \<Longrightarrow> JSON_parse [] = None \<Longrightarrow>
   queryLogs sha256 JSON_parse filters fs =
     \<lparr>logs = [], isValid = False, q_error = Some ''Could not read or parse the audit log.''\<rparr>"
  by (simp add: queryLogs_def trim_empty)

subsection \<open>The absent and the empty log\<close>

text \<open>
  Claim C5 says that \<open>queryLogs\<close> on an absent log file and on a log file of zero bytes
  both return no entries with \<open>isValid = true\<close>. For the absent file it does. The text
  of a zero-byte file is the empty string, \<open>trim\<close> leaves it empty, \<open>split\<close> makes one
  empty line of it, and \<open>JSON.parse\<close> throws on the empty line (the assumption), with
  an error that has no \<open>code\<close>: the result is \<open>isValid = false\<close> with the message that the
  log could not be read or parsed, whatever the filters are and whether or not the
  file is readable.
\<close>

theorem empty_log_file_is_reported_invalid:
  assumes "JSON_parse [] = None"
  shows "queryLogs sha256 JSON_parse filters \<lparr>content = Some [], readable = r, writable = w\<rparr> =
       \<lparr>logs = [], isValid = False, q_error = Some ''Could not read or parse the audit log.''\<rparr> \<and>
     queryLogs sha256 JSON_parse filters \<lparr>content = None, readable = r, writable = w\<rparr> =
       \<lparr>logs = [], isValid = True, q_error = None\<rparr>"
  using assms by (simp add: queryLogs_def trim_empty)

theorem empty_log_file_is_reported_invalid_witness:
  "parse_flat [] = None \<and>
   isValid (queryLogs demo_sha256 parse_flat [] empty_file) = False \<and>
   isValid (queryLogs demo_sha256 parse_flat [] no_file) = True"
  using empty_log_file_is_reported_invalid [of parse_flat demo_sha256 "[]" True True]
  by (simp add: parse_flat_empty empty_file_def no_file_def)

subsection \<open>Appends to an empty log\<close>

text \<open>
  Claim C3 says, for every \<open>N\<close> from 0 on, that after \<open>N\<close> successful \<open>appendLog\<close> calls
  starting from an empty log \<open>queryLogs({})\<close> reports \<open>isValid = true\<close> with \<open>N\<close> entries.
  At \<open>N = 0\<close> on the log file of zero bytes it does not: no call is made, the file is as
  it was, and \<open>queryLogs({})\<close> reports \<open>isValid = false\<close>. At \<open>N = 1\<close> on the missing log
  file it does not either, when the entry carries a \<open>checksum\<close> property of its own:
  \<open>appendLog\<close> succeeds, the entry's property is part of the text that is hashed, the
  record's property is then overwritten with the hash, and \<open>queryLogs({})\<close>, which hashes
  the record without any \<open>checksum\<close> property, reports tampering and returns no entry,
  though nothing was mutated. The assumptions are the library's: \<open>JSON.parse\<close> throws on
  the empty text and reads the written line back, and the digest tells the two hashed
  texts apart.
\<close>

theorem appends_to_an_empty_log_are_reported_invalid:
  assumes "JSON_parse [] = None"
    and "JSON_parse (serialize (build_record sha256 now relogged_entry (Some GENESIS_HASH))) =
      Some (build_record sha256 now relogged_entry (Some GENESIS_HASH))"
    and "sha256 (utf8_bytes (serialize
           (AList.delete ''checksum'' (record_body now relogged_entry (Some GENESIS_HASH))))) \<noteq>
         sha256 (utf8_bytes (serialize (record_body now relogged_entry (Some GENESIS_HASH))))"
  shows "append_all sha256 JSON_parse [] empty_file = (empty_file, []) \<and>
     queryLogs sha256 JSON_parse [] (fst (append_all sha256 JSON_parse [] empty_file)) =
       \<lparr>logs = [], isValid = False, q_error = Some ''Could not read or parse the audit log.''\<rparr> \<and>
     snd (append_all sha256 JSON_parse [(now, relogged_entry)] no_file) =
       [\<lparr>a_success = True, a_error = None\<rparr>] \<and>
     queryLogs sha256 JSON_parse []
         (fst (append_all sha256 JSON_parse [(now, relogged_entry)] no_file)) =
       \<lparr>logs = [], isValid = False, q_error = Some ''Log tampering detected!''\<rparr>"
  using assms(1) relogged_query [of JSON_parse sha256 now "[]", OF assms(2,3)]
  by (simp only: relogged_append fst_conv snd_conv)
    (simp add: queryLogs_zero_bytes empty_file_def)

theorem appends_to_an_empty_log_are_reported_invalid_witness:
  "parse_flat [] = None \<and>
   \<not> isValid (queryLogs demo_sha256 parse_flat []
      (fst (append_all demo_sha256 parse_flat [] empty_file))) \<and>
   snd (append_all demo_sha256 parse_flat [(''2026-01-01T00:00:00.000Z'', relogged_entry)] no_file) =
     [\<lparr>a_success = True, a_error = None\<rparr>] \<and>
   queryLogs demo_sha256 parse_flat []
       (fst (append_all demo_sha256 parse_flat [(''2026-01-01T00:00:00.000Z'', relogged_entry)]
          no_file)) =
     \<lparr>logs = [], isValid = False, q_error = Some ''Log tampering detected!''\<rparr>"
proof -
  let ?now = "''2026-01-01T00:00:00.000Z''"
  let ?body = "record_body ?now relogged_entry (Some GENESIS_HASH)"
  have "AList.delete ''checksum'' ?body \<noteq> ?body"
    by (simp add: relogged_body AList.delete_eq)
  then have "utf8_bytes (serialize (AList.delete ''checksum'' ?body)) \<noteq>
      utf8_bytes (serialize ?body)"
    using serialize_inj utf8_bytes_inj by blast
  then have distinct: "demo_sha256 (utf8_bytes (serialize (AList.delete ''checksum'' ?body))) \<noteq>
      demo_sha256 (utf8_bytes (serialize ?body))"
    by (simp add: demo_sha256_def)
  from appends_to_an_empty_log_are_reported_invalid
      [of parse_flat demo_sha256 ?now, OF parse_flat_empty parse_flat_serialize distinct]
  show ?thesis by (simp add: parse_flat_empty)
qed
end
